theory Spec2Isabelle
  imports Complex_Main "HOL-Library.Sublist" "HOL-Library.AList" "HOL-Library.Log_Nat"
begin

section \<open>JavaScript strings\<close>

text \<open>
  A JavaScript string is modelled as a \<^typ>\<open>string\<close>: a list of characters with codes
  0 to 255, read as the code points U+0000 to U+00FF. On that range
  \<^verbatim>\<open>String.prototype.toLowerCase\<close> maps each character on its own: the letters A to Z
  and the accented capitals U+00C0 to U+00DE (the multiplication sign U+00D7 apart) move up
  by 32, every other character stays.
\<close>

definition toLowerCase_char :: "char \<Rightarrow> char" where
  "toLowerCase_char c =
     (let n = (of_char c :: nat) in
      if (65 \<le> n \<and> n \<le> 90) \<or> (192 \<le> n \<and> n \<le> 214) \<or> (216 \<le> n \<and> n \<le> 222)
      then char_of (n + 32) else c)"

definition toLowerCase :: "string \<Rightarrow> string" where
  "toLowerCase s = map toLowerCase_char s"

text \<open>\<^verbatim>\<open>s.includes(w)\<close>: \<open>w\<close> occurs in \<open>s\<close> as a contiguous run.\<close>

fun str_includes :: "string \<Rightarrow> string \<Rightarrow> bool" where
  "str_includes [] w = (w = [])"
| "str_includes (c # cs) w = (prefix w (c # cs) \<or> str_includes cs w)"

text \<open>\<^verbatim>\<open>s.startsWith(p)\<close>.\<close>

definition startsWith :: "string \<Rightarrow> string \<Rightarrow> bool" where
  "startsWith s p = prefix p s"

text \<open>\<^verbatim>\<open>s.split(sep)\<close> for a separator of one character; the result is never empty.\<close>

fun split_on :: "char \<Rightarrow> string \<Rightarrow> string list" where
  "split_on sep [] = [[]]"
| "split_on sep (c # cs) =
     (if c = sep then [] # split_on sep cs
      else (case split_on sep cs of
              [] \<Rightarrow> [[c]]
            | p # ps \<Rightarrow> (c # p) # ps))"

text \<open>\<^verbatim>\<open>xs[i]\<close>: \<open>None\<close> stands for \<^verbatim>\<open>undefined\<close>, the value of an index out of range.\<close>

definition index_opt :: "'a list \<Rightarrow> nat \<Rightarrow> 'a option" where
  "index_opt xs i = (if i < length xs then Some (xs ! i) else None)"

text \<open>
  Truthiness of a value that is a string, \<^verbatim>\<open>null\<close> or \<^verbatim>\<open>undefined\<close>
  (\<open>None\<close> stands for both): only a non-empty string is truthy.
\<close>

definition truthy :: "string option \<Rightarrow> bool" where
  "truthy v = (case v of None \<Rightarrow> False | Some s \<Rightarrow> s \<noteq> [])"

text \<open>The decimal numeral of a natural number, as \<^verbatim>\<open>String(n)\<close> prints it.\<close>

fun decimal :: "nat \<Rightarrow> string" where
  "decimal n =
     (if n < 10 then [char_of (48 + n)]
      else decimal (n div 10) @ [char_of (48 + n mod 10)])"

declare decimal.simps [simp del]

section \<open>JavaScript numbers\<close>

text \<open>
  A JavaScript number is an IEEE 754 binary64 value. A finite one is modelled by the
  rational it denotes (the sign of zero is not kept: nothing below tells the two zeros
  apart). \<open>round64\<close> rounds an exact result to the nearest binary64 value, ties to the even
  significand: the significand has 53 bits, the least exponent of a normal value is -1022
  (below it the spacing stays \<open>2^-1074\<close>), and a rounded magnitude of \<open>2^1024\<close> or more
  overflows to an infinity.
\<close>

datatype number = Finite rat | PosInfinity | NegInfinity | NaN

definition pow2 :: "int \<Rightarrow> rat" where
  "pow2 e = (if 0 \<le> e then 2 ^ nat e else 1 / 2 ^ nat (- e))"

text \<open>For \<open>0 < a\<close>, the exponent \<open>e\<close> with \<open>2^e \<le> a < 2^(e+1)\<close>.\<close>

definition floor_log2 :: "rat \<Rightarrow> int" where
  "floor_log2 a = (if 1 \<le> a then bitlen \<lfloor>a\<rfloor> - 1 else - bitlen (\<lceil>1 / a\<rceil> - 1))"

definition round_half_even :: "rat \<Rightarrow> int" where
  "round_half_even q =
     (let f = \<lfloor>q\<rfloor>; d = q - of_int f in
      if d < 1 / 2 then f
      else if 1 / 2 < d then f + 1
      else if even f then f else f + 1)"

definition round64 :: "rat \<Rightarrow> number" where
  "round64 q =
     (if q = 0 then Finite 0
      else
        let a = \<bar>q\<bar>;
            e = max (floor_log2 a) (- 1022);
            u = pow2 (e - 52);
            r = of_int (round_half_even (a / u)) * u
        in if pow2 1024 \<le> r then (if 0 < q then PosInfinity else NegInfinity)
           else Finite (if 0 < q then r else - r))"

text \<open>The number a decimal literal or an integer property denotes.\<close>

definition num_of_nat :: "nat \<Rightarrow> number" where
  "num_of_nat n = round64 (of_nat n)"

text \<open>The operators \<^verbatim>\<open>*\<close>, \<^verbatim>\<open>+\<close> and \<^verbatim>\<open>-\<close> on numbers.\<close>

fun js_mul :: "number \<Rightarrow> number \<Rightarrow> number" where
  "js_mul NaN _ = NaN"
| "js_mul _ NaN = NaN"
| "js_mul (Finite a) (Finite b) = round64 (a * b)"
| "js_mul (Finite a) PosInfinity = (if a = 0 then NaN else if 0 < a then PosInfinity else NegInfinity)"
| "js_mul (Finite a) NegInfinity = (if a = 0 then NaN else if 0 < a then NegInfinity else PosInfinity)"
| "js_mul PosInfinity (Finite b) = (if b = 0 then NaN else if 0 < b then PosInfinity else NegInfinity)"
| "js_mul NegInfinity (Finite b) = (if b = 0 then NaN else if 0 < b then NegInfinity else PosInfinity)"
| "js_mul PosInfinity PosInfinity = PosInfinity"
| "js_mul PosInfinity NegInfinity = NegInfinity"
| "js_mul NegInfinity PosInfinity = NegInfinity"
| "js_mul NegInfinity NegInfinity = PosInfinity"

fun js_add :: "number \<Rightarrow> number \<Rightarrow> number" where
  "js_add NaN _ = NaN"
| "js_add _ NaN = NaN"
| "js_add (Finite a) (Finite b) = round64 (a + b)"
| "js_add (Finite a) PosInfinity = PosInfinity"
| "js_add (Finite a) NegInfinity = NegInfinity"
| "js_add PosInfinity (Finite b) = PosInfinity"
| "js_add NegInfinity (Finite b) = NegInfinity"
| "js_add PosInfinity PosInfinity = PosInfinity"
| "js_add PosInfinity NegInfinity = NaN"
| "js_add NegInfinity PosInfinity = NaN"
| "js_add NegInfinity NegInfinity = NegInfinity"

fun js_neg :: "number \<Rightarrow> number" where
  "js_neg NaN = NaN"
| "js_neg (Finite a) = Finite (- a)"
| "js_neg PosInfinity = NegInfinity"
| "js_neg NegInfinity = PosInfinity"

definition js_sub :: "number \<Rightarrow> number \<Rightarrow> number" where
  "js_sub a b = js_add a (js_neg b)"

section \<open>JSON values and objects\<close>

datatype js_error = TypeError | SyntaxError | ApiError string

datatype json =
    JNull
  | JBool bool
  | JNum number
  | JStr string
  | JArr "json list"
  | JObj "(string \<times> json) list"

text \<open>
  An object is the list of its own enumerable properties in their order; a property is
  read with \<^const>\<open>map_of\<close> and written with \<^const>\<open>AList.update\<close>, which keeps the place
  of a key that is there already and appends a new one, as an object literal does.
\<close>

type_synonym js_object = "(string \<times> json) list"

text \<open>
  The properties \<^verbatim>\<open>{...v}\<close> copies from a parsed value: those of an object, the
  indexed elements of an array, the indexed characters of a string, none of a number, a
  boolean or \<^verbatim>\<open>null\<close>.
\<close>

fun own_props :: "json \<Rightarrow> js_object" where
  "own_props (JObj fs) = fs"
| "own_props (JArr xs) = zip (map decimal [0..<length xs]) xs"
| "own_props (JStr s) = zip (map decimal [0..<length s]) (map (\<lambda>c. JStr [c]) s)"
| "own_props _ = []"

text \<open>
  The property read \<^verbatim>\<open>v.findings\<close> on a parsed value: a \<^verbatim>\<open>TypeError\<close> on
  \<^verbatim>\<open>null\<close>, \<^verbatim>\<open>undefined\<close> (\<open>None\<close>) where the value has no such property.
\<close>

fun prop_findings :: "json \<Rightarrow> js_error + json option" where
  "prop_findings JNull = Inl TypeError"
| "prop_findings (JObj fs) = Inr (map_of fs ''findings'')"
| "prop_findings _ = Inr None"

fun Array_isArray :: "json option \<Rightarrow> bool" where
  "Array_isArray (Some (JArr xs)) = True"
| "Array_isArray _ = False"

section \<open>The external capabilities\<close>

text \<open>
  What the code reaches outside itself is a parameter of the model: the API key of the
  process environment, the model call \<^verbatim>\<open>ai.models.generateContent\<close>, \<^verbatim>\<open>JSON.parse\<close>,
  the clock, and the Firestore handle with its \<^verbatim>\<open>updateDoc\<close>. A call that throws or
  rejects returns \<open>Inl\<close>. Every call is taken to settle: the code sets no timeout, and a
  call that never returns is outside the model.

  A request carries the model's name, the inline data and its mime type, and which of the
  two fixed instruction texts goes with it (the texts themselves never vary).
\<close>

datatype prompt = EnhancePrompt | AnalysisPrompt

record gen_request =
  model :: string
  req_data :: "string option"
  req_mimeType :: string
  req_prompt :: prompt

record inline_data =
  data :: "string option"
  mimeType :: string

record part =
  inlineData :: "inline_data option"

record content =
  parts :: "part list option"

record candidate =
  candidate_content :: "content option"

record gen_response =
  candidates :: "candidate list option"
  response_text :: "string option"

record 'r UploadedFile =
  uf_id :: string
  uf_name :: string
  uf_type :: string
  uf_date :: string
  previewUrl :: "string option"
  processedUrl :: "string option"
  analysisResult :: "'r option"

record env =
  API_KEY :: "string option"
  generateContent :: "gen_request \<Rightarrow> js_error + gen_response"
  JSON_parse :: "string \<Rightarrow> js_error + json"
  Date_now :: nat
  Date_toISOString :: string
  db :: "(string \<Rightarrow> js_object UploadedFile \<Rightarrow> js_error + unit) option"

section \<open>services/geminiService.ts\<close>

text \<open>The client is \<^verbatim>\<open>null\<close> when the API key is unset or empty.\<close>

definition getGenAIClient :: "env \<Rightarrow> (gen_request \<Rightarrow> js_error + gen_response) option" where
  "getGenAIClient ev = (if \<not> truthy (API_KEY ev) then None else Some (generateContent ev))"

text \<open>
  \<^verbatim>\<open>response.candidates?.[0]?.content?.parts || []\<close>: the parts of the first candidate,
  the empty list when a link of the chain is missing.
\<close>

definition response_parts :: "gen_response \<Rightarrow> part list" where
  "response_parts response =
     (case candidates response of
        None \<Rightarrow> []
      | Some cs \<Rightarrow>
          (case index_opt cs 0 of
             None \<Rightarrow> []
           | Some c \<Rightarrow>
               (case candidate_content c of
                  None \<Rightarrow> []
                | Some ct \<Rightarrow> (case parts ct of None \<Rightarrow> [] | Some ps \<Rightarrow> ps))))"

text \<open>
  The loop over the parts returns the data of the first part that has inline data, and
  \<^verbatim>\<open>null\<close> when there is none. \<open>None\<close> stands for \<^verbatim>\<open>null\<close> and for
  \<^verbatim>\<open>undefined\<close> data alike: the caller only tests the result's truthiness.
\<close>

fun extract_image :: "part list \<Rightarrow> string option" where
  "extract_image [] = None"
| "extract_image (p # ps) =
     (case inlineData p of
        Some i \<Rightarrow> data i
      | None \<Rightarrow> extract_image ps)"

definition enhance_request :: "string option \<Rightarrow> string \<Rightarrow> gen_request" where
  "enhance_request base64Data mimeType' =
     \<lparr>model = ''gemini-2.5-flash-image'', req_data = base64Data,
      req_mimeType = mimeType', req_prompt = EnhancePrompt\<rparr>"

definition analysis_request :: "string option \<Rightarrow> string \<Rightarrow> gen_request" where
  "analysis_request base64Data mimeType' =
     \<lparr>model = ''gemini-3-flash-preview'', req_data = base64Data,
      req_mimeType = mimeType', req_prompt = AnalysisPrompt\<rparr>"

definition processMedicalImage_try ::
  "(gen_request \<Rightarrow> js_error + gen_response) \<Rightarrow> string option \<Rightarrow> string \<Rightarrow> js_error + string option" where
  "processMedicalImage_try ai base64Data mimeType' =
     (case ai (enhance_request base64Data mimeType') of
        Inl e \<Rightarrow> Inl e
      | Inr response \<Rightarrow> Inr (extract_image (response_parts response)))"

definition processMedicalImage :: "env \<Rightarrow> string option \<Rightarrow> string \<Rightarrow> js_error + string option" where
  "processMedicalImage ev base64Data mimeType' =
     (case getGenAIClient ev of
        None \<Rightarrow> Inr None
      | Some ai \<Rightarrow>
          (case processMedicalImage_try ai base64Data mimeType' of
             Inl e \<Rightarrow> Inr None
           | Inr r \<Rightarrow> Inr r))"

definition defaultError :: js_object where
  "defaultError =
     [(''summary'', JStr ''Analysis failed.''),
      (''findings'', JArr []),
      (''disclaimer'', JStr ''System Error.'')]"

definition analysisCatchResult :: js_object where
  "analysisCatchResult =
     [(''summary'', JStr ''Could not process image.''),
      (''findings'', JArr []),
      (''disclaimer'', JStr ''Error occurred during analysis.'')]"

text \<open>
  The object literal \<^verbatim>\<open>{...parsed, findings: Array.isArray(parsed.findings) ? parsed.findings : []}\<close>.
\<close>

definition coerce_findings :: "json \<Rightarrow> js_error + js_object" where
  "coerce_findings parsed =
     (case prop_findings parsed of
        Inl e \<Rightarrow> Inl e
      | Inr f \<Rightarrow>
          Inr (AList.update ''findings''
                 (case f of
                    None \<Rightarrow> JArr []
                  | Some v \<Rightarrow> if Array_isArray (Some v) then v else JArr [])
                 (own_props parsed)))"

definition analyzeMedicalDocument_try ::
  "env \<Rightarrow> (gen_request \<Rightarrow> js_error + gen_response) \<Rightarrow> string option \<Rightarrow> string \<Rightarrow> js_error + js_object" where
  "analyzeMedicalDocument_try ev ai base64Data mimeType' =
     (case ai (analysis_request base64Data mimeType') of
        Inl e \<Rightarrow> Inl e
      | Inr response \<Rightarrow>
          (case response_text response of
             None \<Rightarrow> Inr defaultError
           | Some t \<Rightarrow>
               if t = [] then Inr defaultError
               else (case JSON_parse ev t of
                       Inl e \<Rightarrow> Inl e
                     | Inr parsed \<Rightarrow> coerce_findings parsed)))"

definition analyzeMedicalDocument :: "env \<Rightarrow> string option \<Rightarrow> string \<Rightarrow> js_error + js_object" where
  "analyzeMedicalDocument ev base64Data mimeType' =
     (case getGenAIClient ev of
        None \<Rightarrow> Inr defaultError
      | Some ai \<Rightarrow>
          (case analyzeMedicalDocument_try ev ai base64Data mimeType' of
             Inl e \<Rightarrow> Inr analysisCatchResult
           | Inr r \<Rightarrow> Inr r))"

section \<open>services/firebaseService.ts\<close>

text \<open>
  \<open>addPatientReport\<close> returns the copy it handed to \<^verbatim>\<open>updateDoc\<close> (\<open>None\<close> when there
  is no database handle and nothing is written), or the error \<^verbatim>\<open>updateDoc\<close> rejected
  with.
\<close>

definition strip_large :: "'r UploadedFile \<Rightarrow> 'r UploadedFile" where
  "strip_large file' =
     (if (case previewUrl file' of None \<Rightarrow> 0 | Some u \<Rightarrow> length u) > 800000
      then file'\<lparr>previewUrl := Some [], processedUrl := Some []\<rparr>
      else file')"

definition addPatientReport ::
  "env \<Rightarrow> string \<Rightarrow> js_object UploadedFile \<Rightarrow> js_error + js_object UploadedFile option" where
  "addPatientReport ev userId file' =
     (case db ev of
        None \<Rightarrow> Inr None
      | Some updateDoc \<Rightarrow>
          (let safeFile = strip_large file' in
           case updateDoc userId safeFile of
             Inl e \<Rightarrow> Inl e
           | Inr _ \<Rightarrow> Inr (Some safeFile)))"

section \<open>App.tsx: the pipeline orchestrator\<close>

text \<open>
  The file the user picked: its name, its mime type, and what \<^verbatim>\<open>reader.result\<close>
  holds when \<^verbatim>\<open>onloadend\<close> fires: the data URL, or \<^verbatim>\<open>null\<close> (\<open>None\<close>) when the
  read failed.
\<close>

record js_file =
  file_name :: string
  file_type :: string
  reader_result :: "string option"

record app_state =
  isUploading :: bool
  processingStatus :: string
  files :: "js_object UploadedFile list"
  isFirebaseConnected :: bool

text \<open>
  The stage functions the orchestrator calls, with their arguments, in the order of the
  calls: what a test double of the three services would record.
\<close>

datatype stage_call =
    ProcessMedicalImage "string option" string
  | AnalyzeMedicalDocument "string option" string
  | AddPatientReport string "js_object UploadedFile"

text \<open>
  What one upload leaves behind: the state after the last update, the calls made, the
  record built (if the pipeline got that far), and the error of the handler's promise when
  it rejects with nothing to catch it.
\<close>

record upload_run =
  final_state :: app_state
  calls :: "stage_call list"
  built :: "js_object UploadedFile option"
  rejection :: "js_error option"

definition DEMO_USER_ID :: string where
  "DEMO_USER_ID = ''demo_patient_001''"

text \<open>
  Step 1 of the \<^verbatim>\<open>try\<close> block: the enhancement, for an image only. It yields
  \<open>processedImageBase64\<close>, \<open>finalImageBase64\<close>, the state and the calls so far.
\<close>

definition enhance_step ::
  "env \<Rightarrow> app_state \<Rightarrow> js_file \<Rightarrow> string option \<Rightarrow>
     js_error + (string option \<times> string option \<times> app_state \<times> stage_call list)" where
  "enhance_step ev st file' base64String =
     (if startsWith (file_type file') ''image/'' then
        (let st1 = st\<lparr>processingStatus := ''Removing noise & cropping...''\<rparr> in
         case processMedicalImage ev base64String (file_type file') of
           Inl e \<Rightarrow> Inl e
         | Inr processed \<Rightarrow>
             if truthy processed
             then Inr (processed, processed, st1, [ProcessMedicalImage base64String (file_type file')])
             else Inr (None, base64String, st1, [ProcessMedicalImage base64String (file_type file')]))
      else Inr (None, base64String, st, []))"

definition newFile ::
  "env \<Rightarrow> js_file \<Rightarrow> string \<Rightarrow> string option \<Rightarrow> js_object \<Rightarrow> js_object UploadedFile" where
  "newFile ev file' base64DataUrl processedImageBase64 result =
     \<lparr>uf_id = decimal (Date_now ev),
      uf_name = file_name file',
      uf_type = file_type file',
      uf_date = Date_toISOString ev,
      previewUrl = Some base64DataUrl,
      processedUrl =
        (case processedImageBase64 of
           None \<Rightarrow> None
         | Some p \<Rightarrow> if p = [] then None else Some (''data:image/png;base64,'' @ p)),
      analysisResult = Some result\<rparr>"

text \<open>
  The body of the \<^verbatim>\<open>try\<close> block: \<open>Inl\<close> is an error thrown inside it, which the
  \<^verbatim>\<open>catch\<close> clause logs and drops.
\<close>

definition pipeline_try ::
  "env \<Rightarrow> app_state \<Rightarrow> js_file \<Rightarrow> string \<Rightarrow> string option \<Rightarrow>
     (js_error + unit) \<times> app_state \<times> stage_call list \<times> js_object UploadedFile option" where
  "pipeline_try ev st file' base64DataUrl base64String =
     (case enhance_step ev st file' base64String of
        Inl e \<Rightarrow>
          (Inl e, st\<lparr>processingStatus := ''Removing noise & cropping...''\<rparr>,
           [ProcessMedicalImage base64String (file_type file')], None)
      | Inr (processedImageBase64, finalImageBase64, st1, calls1) \<Rightarrow>
          (let st2 = st1\<lparr>processingStatus := ''Detecting anomalies...''\<rparr>;
               calls2 = calls1 @ [AnalyzeMedicalDocument finalImageBase64 (file_type file')]
           in case analyzeMedicalDocument ev finalImageBase64 (file_type file') of
                Inl e \<Rightarrow> (Inl e, st2, calls2, None)
              | Inr result \<Rightarrow>
                  (let nf = newFile ev file' base64DataUrl processedImageBase64 result in
                   if isFirebaseConnected st2 then
                     (let st3 = st2\<lparr>processingStatus := ''Saving to database...''\<rparr>;
                          calls3 = calls2 @ [AddPatientReport DEMO_USER_ID nf]
                      in case addPatientReport ev DEMO_USER_ID nf of
                           Inl e \<Rightarrow> (Inl e, st3, calls3, Some nf)
                         | Inr _ \<Rightarrow> (Inr (), st3, calls3, Some nf))
                   else (Inr (), st2\<lparr>files := nf # files st2\<rparr>, calls2, Some nf))))"

text \<open>\<^verbatim>\<open>base64DataUrl.split(',')[1]\<close>: the payload of the data URL.\<close>

definition base64_of :: "string \<Rightarrow> string option" where
  "base64_of base64DataUrl = index_opt (split_on (CHR '','') base64DataUrl) 1"

text \<open>
  \<open>handleFileUpload\<close> with the reader's \<^verbatim>\<open>onloadend\<close> callback run to its end. The
  first two lines of the callback, which split \<^verbatim>\<open>reader.result\<close>, stand before the
  \<^verbatim>\<open>try\<close>: on a \<^verbatim>\<open>null\<close> result the split throws a \<^verbatim>\<open>TypeError\<close> that neither the
  \<^verbatim>\<open>catch\<close> nor the \<^verbatim>\<open>finally\<close> clause sees.
\<close>

definition handleFileUpload :: "env \<Rightarrow> app_state \<Rightarrow> js_file list \<Rightarrow> upload_run" where
  "handleFileUpload ev st target_files =
     (case target_files of
        [] \<Rightarrow> \<lparr>final_state = st, calls = [], built = None, rejection = None\<rparr>
      | file' # _ \<Rightarrow>
          (let st0 = st\<lparr>isUploading := True, processingStatus := ''Uploading...''\<rparr> in
           case reader_result file' of
             None \<Rightarrow> \<lparr>final_state = st0, calls = [], built = None, rejection = Some TypeError\<rparr>
           | Some base64DataUrl \<Rightarrow>
               (let base64String = base64_of base64DataUrl in
                case pipeline_try ev st0 file' base64DataUrl base64String of
                  (r, st', calls', nf) \<Rightarrow>
                    \<lparr>final_state = st'\<lparr>isUploading := False, processingStatus := []\<rparr>,
                     calls = calls', built = nf, rejection = None\<rparr>)))"

section \<open>components/ImageAnnotator.tsx\<close>

record BoundingBox =
  ymin :: number
  xmin :: number
  ymax :: number
  xmax :: number

record MedicalFinding =
  label :: string
  confidence :: string
  box_2d :: "BoundingBox option"
  explanation :: string

record AnalysisResult =
  findings :: "MedicalFinding list"
  summary :: string
  disclaimer :: string

datatype ViewMode = ModeBox | ModeHeatmap | ModeCombined

text \<open>
  \<^verbatim>\<open>(findings || []).filter(f => f.box_2d)\<close>; \<open>None\<close> is a findings prop that is
  \<^verbatim>\<open>null\<close> or \<^verbatim>\<open>undefined\<close>.
\<close>

definition visualFindings :: "MedicalFinding list option \<Rightarrow> MedicalFinding list" where
  "visualFindings fs = filter (\<lambda>f. box_2d f \<noteq> None) (case fs of None \<Rightarrow> [] | Some xs \<Rightarrow> xs)"

text \<open>
  The gradient of a confidence string; \<open>None\<close> is a confidence that is \<^verbatim>\<open>null\<close> or
  \<^verbatim>\<open>undefined\<close>, which \<^verbatim>\<open>confidence?.toLowerCase() || ''\<close> turns into the empty string.
\<close>

definition getHeatmapStyle :: "string option \<Rightarrow> string" where
  "getHeatmapStyle conf =
     (let c = (case conf of None \<Rightarrow> [] | Some s \<Rightarrow> toLowerCase s) in
      if str_includes c ''high'' then
        ''radial-gradient(circle at center, rgba(220, 38, 38, 1) 0%, rgba(220, 38, 38, 0.6) 45%, transparent 85%)''
      else if str_includes c ''medium'' then
        ''radial-gradient(circle at center, rgba(234, 88, 12, 0.9) 0%, rgba(234, 88, 12, 0.5) 45%, transparent 85%)''
      else
        ''radial-gradient(circle at center, rgba(202, 138, 4, 0.8) 0%, rgba(202, 138, 4, 0.4) 45%, transparent 85%)'')"

text \<open>
  An overlay of the heatmap layer and one of the bounding-box layer. The four lengths are
  the percentages the style gives (\<^verbatim>\<open>ymin * 100\<close> and so on), before they are printed.
\<close>

record heat_overlay =
  heat_key :: nat
  heat_top :: number
  heat_left :: number
  heat_height :: number
  heat_width :: number
  heat_background :: string

record box_overlay =
  box_key :: nat
  box_top :: number
  box_left :: number
  box_height :: number
  box_width :: number
  box_hovered :: bool
  box_badge :: nat
  box_tooltip :: "(string \<times> string) option"

record annotator_view =
  heatmap_layer :: "heat_overlay list"
  box_layer :: "box_overlay list"
  empty_state :: bool
  legend :: "(nat \<times> string) list"

definition heat_element :: "nat \<times> MedicalFinding \<Rightarrow> heat_overlay option" where
  "heat_element p =
     (case p of (idx, finding) \<Rightarrow>
        (case box_2d finding of
           None \<Rightarrow> None
         | Some b \<Rightarrow>
             Some \<lparr>heat_key = idx,
                   heat_top = js_mul (ymin b) (num_of_nat 100),
                   heat_left = js_mul (xmin b) (num_of_nat 100),
                   heat_height = js_mul (js_sub (ymax b) (ymin b)) (num_of_nat 100),
                   heat_width = js_mul (js_sub (xmax b) (xmin b)) (num_of_nat 100),
                   heat_background = getHeatmapStyle (Some (confidence finding))\<rparr>))"

definition box_element :: "nat option \<Rightarrow> nat \<times> MedicalFinding \<Rightarrow> box_overlay option" where
  "box_element hoveredIndex p =
     (case p of (idx, finding) \<Rightarrow>
        (case box_2d finding of
           None \<Rightarrow> None
         | Some b \<Rightarrow>
             Some \<lparr>box_key = idx,
                   box_top = js_mul (ymin b) (num_of_nat 100),
                   box_left = js_mul (xmin b) (num_of_nat 100),
                   box_height = js_mul (js_sub (ymax b) (ymin b)) (num_of_nat 100),
                   box_width = js_mul (js_sub (xmax b) (xmin b)) (num_of_nat 100),
                   box_hovered = (hoveredIndex = Some idx),
                   box_badge = idx + 1,
                   box_tooltip =
                     (if hoveredIndex = Some idx then Some (label finding, confidence finding)
                      else None)\<rparr>))"

text \<open>
  What the component renders for its findings prop, its view mode and the hovered index:
  an element that returns \<^verbatim>\<open>null\<close> renders nothing, so the layers keep the elements
  that are there.
\<close>

definition ImageAnnotator :: "MedicalFinding list option \<Rightarrow> ViewMode \<Rightarrow> nat option \<Rightarrow> annotator_view" where
  "ImageAnnotator fs viewMode hoveredIndex =
     (let vf = visualFindings fs in
      \<lparr>heatmap_layer =
         (if viewMode = ModeHeatmap \<or> viewMode = ModeCombined
          then List.map_filter heat_element (List.enumerate 0 vf) else []),
       box_layer =
         (if viewMode = ModeBox \<or> viewMode = ModeCombined
          then List.map_filter (box_element hoveredIndex) (List.enumerate 0 vf) else []),
       empty_state = \<not> (length vf > 0),
       legend =
         (if length vf > 0 then map (\<lambda>(i, f). (i + 1, label f)) (List.enumerate 0 vf) else [])\<rparr>)"

section \<open>components/UploadReport.tsx\<close>

text \<open>
  The canvas calls of the export, in order. \<^verbatim>\<open>measureText\<close> and the loaded image's
  native width and height are parameters; the styles in force are written into each call.
\<close>

datatype draw_call =
    DrawImage
  | StrokeRect string number number number number
  | FillRect string number number number number
  | FillText string string number number
  | Download string

definition annotate :: "(string \<Rightarrow> number) \<Rightarrow> nat \<Rightarrow> nat \<Rightarrow> nat \<times> MedicalFinding \<Rightarrow> draw_call list" where
  "annotate measureText img_width img_height p =
     (case p of (idx, finding) \<Rightarrow>
        (case box_2d finding of
           None \<Rightarrow> []
         | Some b \<Rightarrow>
             (let x = js_mul (xmin b) (num_of_nat img_width);
                  y = js_mul (ymin b) (num_of_nat img_height);
                  w = js_mul (js_sub (xmax b) (xmin b)) (num_of_nat img_width);
                  h = js_mul (js_sub (ymax b) (ymin b)) (num_of_nat img_height);
                  lbl = decimal (idx + 1) @ '': '' @ label finding
              in [StrokeRect ''#ef4444'' x y w h,
                  FillRect ''rgba(0,0,0,0.7)'' x (js_sub y (num_of_nat 30))
                    (js_add (measureText lbl) (num_of_nat 10)) (num_of_nat 30),
                  FillText ''#ffffff'' lbl (js_add x (num_of_nat 5)) (js_sub y (num_of_nat 8))])))"

text \<open>
  \<open>downloadAnnotatedImage\<close> once the image has loaded: \<open>None\<close> when it returns at once
  (no image URL or no analysis result), the empty list when the canvas gives no 2D context.
\<close>

definition downloadAnnotatedImage ::
  "(string \<Rightarrow> number) \<Rightarrow> bool \<Rightarrow> nat \<Rightarrow> nat \<Rightarrow> AnalysisResult UploadedFile \<Rightarrow> draw_call list option" where
  "downloadAnnotatedImage measureText has_ctx img_width img_height file' =
     (let imageUrl = (if truthy (processedUrl file') then processedUrl file' else previewUrl file') in
      if \<not> truthy imageUrl then None
      else (case analysisResult file' of
              None \<Rightarrow> None
            | Some result \<Rightarrow>
                if has_ctx then
                  Some (DrawImage
                        # concat (map (annotate measureText img_width img_height)
                                      (List.enumerate 0 (findings result)))
                        @ [Download (''processed-analysis-'' @ uf_name file' @ ''.png'')])
                else Some []))"

text \<open>The rectangles the export strokes, in order.\<close>

fun stroke_rects :: "draw_call list \<Rightarrow> (number \<times> number \<times> number \<times> number) list" where
  "stroke_rects [] = []"
| "stroke_rects (StrokeRect st x y w h # cs) = (x, y, w, h) # stroke_rects cs"
| "stroke_rects (_ # cs) = stroke_rects cs"

text \<open>
  The cards of the textual findings list, one for every finding of the report, with its
  number.
\<close>

definition findingCards :: "AnalysisResult \<Rightarrow> (nat \<times> MedicalFinding) list" where
  "findingCards result = map (\<lambda>(idx, finding). (idx + 1, finding)) (List.enumerate 0 (findings result))"

section \<open>The specification's vocabulary\<close>

text \<open>
  The three bands of the heatmap classification, each named by the gradient the component
  returns for it.
\<close>

datatype band = BandA | BandB | BandC

fun band_gradient :: "band \<Rightarrow> string" where
  "band_gradient BandA =
     ''radial-gradient(circle at center, rgba(220, 38, 38, 1) 0%, rgba(220, 38, 38, 0.6) 45%, transparent 85%)''"
| "band_gradient BandB =
     ''radial-gradient(circle at center, rgba(234, 88, 12, 0.9) 0%, rgba(234, 88, 12, 0.5) 45%, transparent 85%)''"
| "band_gradient BandC =
     ''radial-gradient(circle at center, rgba(202, 138, 4, 0.8) 0%, rgba(202, 138, 4, 0.4) 45%, transparent 85%)''"

text \<open>
  Containing a word case-insensitively, said without \<^const>\<open>toLowerCase\<close>: some contiguous
  run of the string spells the word, each character being the word's letter or its capital.
\<close>

definition ascii_upper :: "char \<Rightarrow> char" where
  "ascii_upper c = (let n = (of_char c :: nat) in if 97 \<le> n \<and> n \<le> 122 then char_of (n - 32) else c)"

definition letter_ci :: "char \<Rightarrow> char \<Rightarrow> bool" where
  "letter_ci a l = (a = l \<or> a = ascii_upper l)"

definition contains_ci :: "string \<Rightarrow> string \<Rightarrow> bool" where
  "contains_ci s w = (\<exists>pre mid post. s = pre @ mid @ post \<and> list_all2 letter_ci mid w)"

definition ascii_lower_letter :: "char \<Rightarrow> bool" where
  "ascii_lower_letter l = (97 \<le> (of_char l :: nat) \<and> (of_char l :: nat) \<le> 122)"

text \<open>
  The classification as the specification words it: ``high'' first, then ``medium'', then
  everything else, a missing confidence included.
\<close>

definition band_of_confidence :: "string option \<Rightarrow> band" where
  "band_of_confidence conf =
     (case conf of
        None \<Rightarrow> BandC
      | Some s \<Rightarrow>
          if contains_ci s ''high'' then BandA
          else if contains_ci s ''medium'' then BandB
          else BandC)"

text \<open>
  The findings field of a parsed response: \<open>None\<close> when the response is no object or the
  object has no such field.
\<close>

definition findings_field :: "json \<Rightarrow> json option" where
  "findings_field v = (case v of JObj fs \<Rightarrow> map_of fs ''findings'' | _ \<Rightarrow> None)"


text \<open>
  The enhancement gives no result: there is no client, the call throws, or the response
  carries no image data.
\<close>

definition enhancement_no_result :: "env \<Rightarrow> string option \<Rightarrow> string \<Rightarrow> bool" where
  "enhancement_no_result ev b m =
     (\<not> truthy (API_KEY ev) \<or>
      (case generateContent ev (enhance_request b m) of
         Inl e \<Rightarrow> True
       | Inr response \<Rightarrow> \<not> truthy (extract_image (response_parts response))))"

fun is_enhance_call :: "stage_call \<Rightarrow> bool" where
  "is_enhance_call (ProcessMedicalImage b m) = True"
| "is_enhance_call _ = False"

text \<open>The call that hands the record to the store, made when the store is connected.\<close>

definition persist_calls :: "app_state \<Rightarrow> js_object UploadedFile \<Rightarrow> stage_call list" where
  "persist_calls st nf = (if isFirebaseConnected st then [AddPatientReport DEMO_USER_ID nf] else [])"

text \<open>The number of findings that have a box.\<close>

definition boxed_count :: "MedicalFinding list option \<Rightarrow> nat" where
  "boxed_count fs = (case fs of None \<Rightarrow> 0 | Some xs \<Rightarrow> length (filter (\<lambda>f. box_2d f \<noteq> None) xs))"

text \<open>
  The rectangle of a box on an image of the given native size, each product and difference
  a binary64 operation.
\<close>

definition export_rect :: "nat \<Rightarrow> nat \<Rightarrow> BoundingBox \<Rightarrow> number \<times> number \<times> number \<times> number" where
  "export_rect img_width img_height b =
     (js_mul (xmin b) (num_of_nat img_width),
      js_mul (ymin b) (num_of_nat img_height),
      js_mul (js_sub (xmax b) (xmin b)) (num_of_nat img_width),
      js_mul (js_sub (ymax b) (ymin b)) (num_of_nat img_height))"

text \<open>The number a decimal literal such as \<^verbatim>\<open>0.1\<close> denotes.\<close>

definition js_literal :: "rat \<Rightarrow> number" where
  "js_literal q = round64 q"

section \<open>Sample inputs\<close>

text \<open>
  A parser that knows one text, a model call that answers every request with one text, and
  one that always throws; an environment with an API key and no store.
\<close>

definition parse_only :: "string \<Rightarrow> json \<Rightarrow> string \<Rightarrow> js_error + json" where
  "parse_only t v s = (if s = t then Inr v else Inl SyntaxError)"

definition respond_text :: "string \<Rightarrow> gen_request \<Rightarrow> js_error + gen_response" where
  "respond_text t req = Inr \<lparr>candidates = None, response_text = Some t\<rparr>"

definition call_throws :: "gen_request \<Rightarrow> js_error + gen_response" where
  "call_throws req = Inl (ApiError ''503 Service Unavailable'')"

definition no_parse :: "string \<Rightarrow> js_error + json" where
  "no_parse s = Inl SyntaxError"

definition env_of ::
  "(gen_request \<Rightarrow> js_error + gen_response) \<Rightarrow> (string \<Rightarrow> js_error + json) \<Rightarrow> env" where
  "env_of gen parse =
     \<lparr>API_KEY = Some ''key'', generateContent = gen, JSON_parse = parse,
      Date_now = 1700000000000, Date_toISOString = ''2023-11-14T22:13:20.000Z'', db = None\<rparr>"

text \<open>The model answers \<^verbatim>\<open>{}\<close>: a response with every field missing.\<close>

definition env_empty_object :: env where
  "env_empty_object = env_of (respond_text ''{}'') (parse_only ''{}'' (JObj []))"






text \<open>Every model call throws.\<close>

definition env_calls_throw :: env where
  "env_calls_throw = env_of call_throws no_parse"

text \<open>A store that accepts every write.\<close>

definition store_accepts :: "string \<Rightarrow> js_object UploadedFile \<Rightarrow> js_error + unit" where
  "store_accepts userId report = Inr ()"

definition env_store :: env where
  "env_store = (env_of call_throws no_parse)\<lparr>db := Some store_accepts\<rparr>"

text \<open>A store that rejects every write, and a state that is connected to the store.\<close>

definition store_rejects :: "string \<Rightarrow> js_object UploadedFile \<Rightarrow> js_error + unit" where
  "store_rejects userId report = Inl (ApiError ''permission-denied'')"

definition env_store_rejects :: env where
  "env_store_rejects = (env_of call_throws no_parse)\<lparr>db := Some store_rejects\<rparr>"

definition connected_state :: app_state where
  "connected_state = \<lparr>isUploading = False, processingStatus = [], files = [], isFirebaseConnected = True\<rparr>"

definition sample_state :: app_state where
  "sample_state = \<lparr>isUploading = False, processingStatus = [], files = [], isFirebaseConnected = False\<rparr>"

definition png_file :: js_file where
  "png_file = \<lparr>file_name = ''scan.png'', file_type = ''image/png'',
                reader_result = Some ''data:image/png;base64,QUJD''\<rparr>"

definition pdf_file :: js_file where
  "pdf_file = \<lparr>file_name = ''report.pdf'', file_type = ''application/pdf'',
                reader_result = Some ''data:application/pdf;base64,QUJD''\<rparr>"

text \<open>A file whose read fails.\<close>

definition unreadable_file :: js_file where
  "unreadable_file = \<lparr>file_name = ''scan.png'', file_type = ''image/png'', reader_result = None\<rparr>"

text \<open>
  A record with a small original and an enhanced image of 800022 characters, above the
  threshold of 800000.
\<close>

definition large_processed_file :: "js_object UploadedFile" where
  "large_processed_file =
     \<lparr>uf_id = ''1700000000000'', uf_name = ''scan.jpg'', uf_type = ''image/jpeg'',
      uf_date = ''2023-11-14T22:13:20.000Z'',
      previewUrl = Some ''data:image/jpeg;base64,QUJD'',
      processedUrl = Some (''data:image/png;base64,'' @ replicate 800000 (CHR ''A'')),
      analysisResult = Some defaultError\<rparr>"

text \<open>A record whose original image has 800001 characters and which has no enhanced image.\<close>

definition large_preview_file :: "js_object UploadedFile" where
  "large_preview_file =
     \<lparr>uf_id = ''1700000000000'', uf_name = ''scan.jpg'', uf_type = ''image/jpeg'',
      uf_date = ''2023-11-14T22:13:20.000Z'',
      previewUrl = Some (replicate 800001 (CHR ''A'')),
      processedUrl = None,
      analysisResult = Some defaultError\<rparr>"

text \<open>The box \<^verbatim>\<open>{ymin: 0.1, xmin: 0.1, ymax: 0.3, xmax: 0.4}\<close> and two findings.\<close>

definition example_box :: BoundingBox where
  "example_box = \<lparr>ymin = js_literal (1 / 10), xmin = js_literal (1 / 10),
                   ymax = js_literal (3 / 10), xmax = js_literal (4 / 10)\<rparr>"

definition boxed_finding :: MedicalFinding where
  "boxed_finding = \<lparr>label = ''Possible Nodule'', confidence = ''High'',
                     box_2d = Some example_box, explanation = ''Rounded opacity''\<rparr>"

definition text_finding :: MedicalFinding where
  "text_finding = \<lparr>label = ''High Glucose Value'', confidence = ''Medium'',
                    box_2d = None, explanation = ''Above the reference range''\<rparr>"

definition no_text_width :: "string \<Rightarrow> number" where
  "no_text_width s = Finite 0"

definition example_export_file :: "AnalysisResult UploadedFile" where
  "example_export_file =
     \<lparr>uf_id = ''1700000000000'', uf_name = ''scan.png'', uf_type = ''image/png'',
      uf_date = ''2023-11-14T22:13:20.000Z'',
      previewUrl = Some ''data:image/png;base64,QUJD'',
      processedUrl = None,
      analysisResult =
        Some \<lparr>findings = [boxed_finding], summary = ''One region.'', disclaimer = ''Not a diagnosis.''\<rparr>\<rparr>"

section \<open>Strings\<close>

lemma str_includes_sublist: "str_includes s w = sublist w s"
  by (induction s) (auto simp: sublist_Cons_right)

lemma of_char_toLowerCase_char:
  "(of_char (toLowerCase_char a) :: nat) =
     (let n = of_char a in
      if (65 \<le> n \<and> n \<le> 90) \<or> (192 \<le> n \<and> n \<le> 214) \<or> (216 \<le> n \<and> n \<le> 222) then n + 32 else n)"
  by (auto simp: toLowerCase_char_def Let_def)

lemma of_char_ascii_upper:
  "(of_char (ascii_upper l) :: nat) = (let n = of_char l in if 97 \<le> n \<and> n \<le> 122 then n - 32 else n)"
  by (auto simp: ascii_upper_def Let_def)

text \<open>Lowering a character gives a small ASCII letter exactly for that letter and its capital.\<close>

lemma lower_letter_iff:
  assumes "ascii_lower_letter l"
  shows "toLowerCase_char a = l \<longleftrightarrow> letter_ci a l"
proof -
  have "toLowerCase_char a = l \<longleftrightarrow> (of_char (toLowerCase_char a) :: nat) = of_char l"
    by simp
  also have "\<dots> \<longleftrightarrow> (of_char a :: nat) = of_char l \<or> (of_char a :: nat) = of_char (ascii_upper l)"
    using assms unfolding of_char_toLowerCase_char of_char_ascii_upper ascii_lower_letter_def Let_def
    by auto
  also have "\<dots> \<longleftrightarrow> letter_ci a l"
    by (simp add: letter_ci_def)
  finally show ?thesis .
qed

lemma lowered_run_iff:
  "list_all ascii_lower_letter w \<Longrightarrow> map toLowerCase_char mid = w \<longleftrightarrow> list_all2 letter_ci mid w"
proof (induction w arbitrary: mid)
  case Nil
  then show ?case by simp
next
  case (Cons l w)
  then show ?case
    by (cases mid) (auto simp: lower_letter_iff)
qed

text \<open>
  For a word of small ASCII letters, lowering the string and searching the word is the
  same as containing the word case-insensitively.
\<close>

lemma contains_ci_code:
  assumes "list_all ascii_lower_letter w"
  shows "contains_ci s w \<longleftrightarrow> str_includes (toLowerCase s) w"
proof
  assume "contains_ci s w"
  then obtain pre mid post where s: "s = pre @ mid @ post" and m: "list_all2 letter_ci mid w"
    unfolding contains_ci_def by blast
  from m assms have "map toLowerCase_char mid = w"
    by (simp add: lowered_run_iff)
  then have "toLowerCase s = map toLowerCase_char pre @ w @ map toLowerCase_char post"
    by (simp add: s toLowerCase_def)
  then show "str_includes (toLowerCase s) w"
    by (simp add: str_includes_sublist)
next
  assume "str_includes (toLowerCase s) w"
  then obtain ps ss where "map toLowerCase_char s = ps @ w @ ss"
    unfolding str_includes_sublist sublist_def toLowerCase_def by blast
  then have "\<exists>pre rest. s = pre @ rest \<and> ps = map toLowerCase_char pre
      \<and> w @ ss = map toLowerCase_char rest"
    by (simp add: map_eq_append_conv)
  then obtain pre rest where s1: "s = pre @ rest" and r: "map toLowerCase_char rest = w @ ss"
    by auto
  from r have "\<exists>mid post. rest = mid @ post \<and> w = map toLowerCase_char mid
      \<and> ss = map toLowerCase_char post"
    by (simp add: map_eq_append_conv)
  then obtain mid post where s2: "rest = mid @ post" and m: "map toLowerCase_char mid = w"
    by auto
  from m assms have "list_all2 letter_ci mid w"
    by (simp add: lowered_run_iff)
  with s1 s2 show "contains_ci s w"
    unfolding contains_ci_def by blast
qed

lemma high_lower: "list_all ascii_lower_letter ''high''"
  by (simp add: ascii_lower_letter_def)

lemma medium_lower: "list_all ascii_lower_letter ''medium''"
  by (simp add: ascii_lower_letter_def)

lemma base64_sample [simp]: "base64_of ''data:image/png;base64,QUJD'' = Some ''QUJD''"
  by (simp add: base64_of_def index_opt_def)

lemma base64_sample_pdf [simp]: "base64_of ''data:application/pdf;base64,QUJD'' = Some ''QUJD''"
  by (simp add: base64_of_def index_opt_def)

section \<open>The heatmap classification\<close>

lemma getHeatmapStyle_band: "getHeatmapStyle conf = band_gradient (band_of_confidence conf)"
  by (cases conf)
     (simp_all add: getHeatmapStyle_def band_of_confidence_def contains_ci_code [OF high_lower]
        contains_ci_code [OF medium_lower] Let_def)

text \<open>
  C2. \<open>getHeatmapStyle\<close> is a total function of the confidence string alone: a string that
  contains ``high'' case-insensitively gets band A, otherwise one that contains ``medium''
  gets band B, and anything else, the empty and the missing string included, gets band C.
  The inputs ``High'', ``HIGH risk'', ``medium'', the empty string, ``Low'' and
  ``unexpected'' get A, A, B, C, C and C, and the three bands are three different gradients.
\<close>

theorem heatmap_classification:
  "(\<forall>conf. getHeatmapStyle conf = band_gradient (band_of_confidence conf))
   \<and> getHeatmapStyle (Some ''High'') = band_gradient BandA
   \<and> getHeatmapStyle (Some ''HIGH risk'') = band_gradient BandA
   \<and> getHeatmapStyle (Some ''medium'') = band_gradient BandB
   \<and> getHeatmapStyle (Some '''') = band_gradient BandC
   \<and> getHeatmapStyle None = band_gradient BandC
   \<and> getHeatmapStyle (Some ''Low'') = band_gradient BandC
   \<and> getHeatmapStyle (Some ''unexpected'') = band_gradient BandC
   \<and> band_gradient BandA \<noteq> band_gradient BandB
   \<and> band_gradient BandA \<noteq> band_gradient BandC
   \<and> band_gradient BandB \<noteq> band_gradient BandC"
proof -
  have ex: "getHeatmapStyle (Some ''High'') = band_gradient BandA"
    "getHeatmapStyle (Some ''HIGH risk'') = band_gradient BandA"
    "getHeatmapStyle (Some ''medium'') = band_gradient BandB"
    "getHeatmapStyle (Some '''') = band_gradient BandC"
    "getHeatmapStyle None = band_gradient BandC"
    "getHeatmapStyle (Some ''Low'') = band_gradient BandC"
    "getHeatmapStyle (Some ''unexpected'') = band_gradient BandC"
    by code_simp+
  have ne: "band_gradient BandA \<noteq> band_gradient BandB"
    "band_gradient BandA \<noteq> band_gradient BandC"
    "band_gradient BandB \<noteq> band_gradient BandC"
    by simp_all
  show ?thesis
    using getHeatmapStyle_band ex ne by blast
qed

text \<open>
  C10. A confidence string that contains both ``high'' and ``medium'' case-insensitively,
  such as ``medium-high'', gets band A: the check for ``high'' comes first.
\<close>

theorem high_precedes_medium:
  assumes "contains_ci s ''high''" and "contains_ci s ''medium''"
  shows "getHeatmapStyle (Some s) = band_gradient BandA"
  using assms by (simp add: getHeatmapStyle_band band_of_confidence_def)

theorem high_precedes_medium_witness:
  "contains_ci ''medium-high'' ''high'' \<and> contains_ci ''medium-high'' ''medium''
   \<and> getHeatmapStyle (Some ''medium-high'') = band_gradient BandA"
proof -
  have "str_includes (toLowerCase ''medium-high'') ''high''"
    and "str_includes (toLowerCase ''medium-high'') ''medium''"
    by code_simp+
  then have h: "contains_ci ''medium-high'' ''high''" and m: "contains_ci ''medium-high'' ''medium''"
    by (simp_all add: contains_ci_code [OF high_lower] contains_ci_code [OF medium_lower])
  from high_precedes_medium [OF h m] h m show ?thesis by simp
qed

section \<open>The analysis stage\<close>

lemma map_of_update_findings [simp]:
  "map_of (AList.update ''findings'' v al) ''findings'' = Some v"
  by (simp add: update_conv')

lemma coerce_findings_cases:
  "coerce_findings parsed =
     (if parsed = JNull then Inl TypeError
      else Inr (AList.update ''findings''
             (if Array_isArray (findings_field parsed) then the (findings_field parsed) else JArr [])
             (own_props parsed)))"
  by (cases parsed) (auto simp: coerce_findings_def findings_field_def split: option.splits)

lemma analyze_never_throws: "\<exists>r. analyzeMedicalDocument ev b m = Inr r"
  by (auto simp: analyzeMedicalDocument_def split: option.splits sum.splits)

text \<open>What the stage returns for a response whose text parses.\<close>

lemma analyze_parsed:
  assumes "truthy (API_KEY ev)"
    and "generateContent ev (analysis_request b m) = Inr response"
    and "response_text response = Some t" and "t \<noteq> []"
    and "JSON_parse ev t = Inr parsed"
  shows "analyzeMedicalDocument ev b m =
     (if parsed = JNull then Inr analysisCatchResult
      else Inr (AList.update ''findings''
             (if Array_isArray (findings_field parsed) then the (findings_field parsed) else JArr [])
             (own_props parsed)))"
  using assms
  by (simp add: analyzeMedicalDocument_def getGenAIClient_def analyzeMedicalDocument_try_def
      coerce_findings_cases)



lemma env_empty_object_facts:
  "truthy (API_KEY env_empty_object)"
  "generateContent env_empty_object (analysis_request b m)
     = Inr \<lparr>candidates = None, response_text = Some ''{}''\<rparr>"
  "JSON_parse env_empty_object ''{}'' = Inr (JObj [])"
  by (simp_all add: env_empty_object_def env_of_def truthy_def respond_text_def parse_only_def)

text \<open>
  C1. When the response's findings field is null, missing or not a sequence, the report
  \<open>analyzeMedicalDocument\<close> returns has the empty sequence as its findings: the function
  returns, and the field is neither null nor absent.
\<close>

theorem analyze_findings_coerced:
  assumes "truthy (API_KEY ev)"
    and "generateContent ev (analysis_request b m) = Inr response"
    and "response_text response = Some t" and "t \<noteq> []"
    and "JSON_parse ev t = Inr parsed"
    and "\<not> Array_isArray (findings_field parsed)"
  shows "\<exists>r. analyzeMedicalDocument ev b m = Inr r \<and> map_of r ''findings'' = Some (JArr [])"
  using assms(6) analyze_parsed [OF assms(1-5)]
  by (simp add: analysisCatchResult_def)

theorem analyze_findings_coerced_witness:
  "truthy (API_KEY env_empty_object)
   \<and> generateContent env_empty_object (analysis_request (Some ''QUJD'') ''image/png'')
       = Inr \<lparr>candidates = None, response_text = Some ''{}''\<rparr>
   \<and> JSON_parse env_empty_object ''{}'' = Inr (JObj [])
   \<and> \<not> Array_isArray (findings_field (JObj []))
   \<and> (\<exists>r. analyzeMedicalDocument env_empty_object (Some ''QUJD'') ''image/png'' = Inr r
          \<and> map_of r ''findings'' = Some (JArr []))"
proof -
  note f = env_empty_object_facts
  have n: "\<not> Array_isArray (findings_field (JObj []))"
    by (simp add: findings_field_def)
  from analyze_findings_coerced [OF f(1) f(2) _ _ f(3) n] f n show ?thesis
    by simp
qed

section \<open>The enhancement stage\<close>

lemma processMedicalImage_never_throws: "\<exists>r. processMedicalImage ev b m = Inr r"
  by (auto simp: processMedicalImage_def split: option.splits sum.splits)

lemma processMedicalImage_no_result:
  "enhancement_no_result ev b m \<Longrightarrow> \<exists>r. processMedicalImage ev b m = Inr r \<and> \<not> truthy r"
  by (auto simp: enhancement_no_result_def processMedicalImage_def getGenAIClient_def
      processMedicalImage_try_def truthy_def split: option.splits sum.splits)

lemma env_calls_throw_no_result: "enhancement_no_result env_calls_throw b m"
  by (simp add: enhancement_no_result_def env_calls_throw_def env_of_def call_throws_def)

section \<open>The orchestrator\<close>

text \<open>The \<^verbatim>\<open>try\<close> block in terms of what the two stages return.\<close>

lemma pipeline_try_eq:
  assumes "analyzeMedicalDocument ev fin (file_type f) = Inr result"
    and "enhance_step ev st f b = Inr (p, fin, st1, calls1)"
  shows "pipeline_try ev st f url b =
     (let nf = newFile ev f url p result;
          st2 = st1\<lparr>processingStatus := ''Detecting anomalies...''\<rparr>;
          calls2 = calls1 @ [AnalyzeMedicalDocument fin (file_type f)]
      in if isFirebaseConnected st1 then
           (case addPatientReport ev DEMO_USER_ID nf of
              Inl e \<Rightarrow> (Inl e, st2\<lparr>processingStatus := ''Saving to database...''\<rparr>,
                         calls2 @ [AddPatientReport DEMO_USER_ID nf], Some nf)
            | Inr _ \<Rightarrow> (Inr (), st2\<lparr>processingStatus := ''Saving to database...''\<rparr>,
                         calls2 @ [AddPatientReport DEMO_USER_ID nf], Some nf))
         else (Inr (), st2\<lparr>files := nf # files st2\<rparr>, calls2, Some nf))"
  using assms by (simp add: pipeline_try_def Let_def split: sum.splits)

lemma enhance_step_image:
  assumes "startsWith (file_type f) ''image/''" and "processMedicalImage ev b (file_type f) = Inr r"
  shows "enhance_step ev st f b =
     Inr (if truthy r then r else None, if truthy r then r else b,
          st\<lparr>processingStatus := ''Removing noise & cropping...''\<rparr>,
          [ProcessMedicalImage b (file_type f)])"
  using assms by (simp add: enhance_step_def Let_def)

lemma enhance_step_other:
  assumes "\<not> startsWith (file_type f) ''image/''"
  shows "enhance_step ev st f b = Inr (None, b, st, [])"
  using assms by (simp add: enhance_step_def)

lemma enhance_step_total:
  "\<exists>p fin st1 calls1. enhance_step ev st f b = Inr (p, fin, st1, calls1)
     \<and> isFirebaseConnected st1 = isFirebaseConnected st \<and> files st1 = files st"
proof (cases "startsWith (file_type f) ''image/''")
  case True
  obtain r where "processMedicalImage ev b (file_type f) = Inr r"
    using processMedicalImage_never_throws by blast
  then show ?thesis
    by (simp add: enhance_step_image [OF True])
next
  case False
  then show ?thesis
    by (simp add: enhance_step_other)
qed

lemma handleFileUpload_read:
  assumes "reader_result f = Some url"
  shows "handleFileUpload ev st (f # fs) =
     (case pipeline_try ev (st\<lparr>isUploading := True, processingStatus := ''Uploading...''\<rparr>) f url (base64_of url) of
        (r, st', calls', nf) \<Rightarrow>
          \<lparr>final_state = st'\<lparr>isUploading := False, processingStatus := []\<rparr>,
           calls = calls', built = nf, rejection = None\<rparr>)"
  using assms by (simp add: handleFileUpload_def Let_def)


text \<open>When the read fails, the callback throws before its \<^verbatim>\<open>try\<close> block.\<close>

lemma upload_read_failure:
  assumes "reader_result f = None"
  shows "handleFileUpload ev st (f # fs) =
     \<lparr>final_state = st\<lparr>isUploading := True, processingStatus := ''Uploading...''\<rparr>,
      calls = [], built = None, rejection = Some TypeError\<rparr>"
  using assms by (simp add: handleFileUpload_def Let_def)


text \<open>The run when no enhanced image comes back: the pipeline goes on with the original bytes.\<close>

lemma run_without_enhancement:
  assumes rd: "reader_result f = Some url"
    and e: "enhance_step ev (st\<lparr>isUploading := True, processingStatus := ''Uploading...''\<rparr>) f (base64_of url)
        = Inr (None, base64_of url, st1, calls1)"
    and c: "isFirebaseConnected st1 = isFirebaseConnected st"
  shows "\<exists>result nf. analyzeMedicalDocument ev (base64_of url) (file_type f) = Inr result
    \<and> nf = newFile ev f url None result
    \<and> built (handleFileUpload ev st (f # fs)) = Some nf
    \<and> calls (handleFileUpload ev st (f # fs)) =
        calls1 @ [AnalyzeMedicalDocument (base64_of url) (file_type f)] @ persist_calls st nf"
proof -
  obtain result where a: "analyzeMedicalDocument ev (base64_of url) (file_type f) = Inr result"
    using analyze_never_throws by blast
  show ?thesis
    using c
    by (simp add: handleFileUpload_read [OF rd] pipeline_try_eq [OF a e] a persist_calls_def Let_def
        split: sum.splits)
qed

lemma sample_state_local: "persist_calls sample_state nf = []"
  by (simp add: persist_calls_def sample_state_def)




text \<open>
  C5, at an upload whose read fails. \<^verbatim>\<open>reader.result\<close> is \<^verbatim>\<open>null\<close>, the split of it
  throws before the \<^verbatim>\<open>try\<close> block is entered, and the \<^verbatim>\<open>finally\<close> clause that would
  reset the two fields never runs: the state stays ``Uploading...'' with \<open>isUploading\<close> true
  and the error escapes the handler.
\<close>

theorem read_failure_stays_uploading:
  "isUploading (final_state (handleFileUpload env_calls_throw sample_state [unreadable_file])) = True
   \<and> processingStatus (final_state (handleFileUpload env_calls_throw sample_state [unreadable_file]))
       = ''Uploading...''
   \<and> rejection (handleFileUpload env_calls_throw sample_state [unreadable_file]) = Some TypeError
   \<and> calls (handleFileUpload env_calls_throw sample_state [unreadable_file]) = []"
  by (simp add: upload_read_failure unreadable_file_def)

text \<open>
  C6. For an image whose enhancement gives no result (no client, a call that throws, or a
  response without image data), \<open>processMedicalImage\<close> returns a falsy value and does not
  throw; once the bytes are read, the record built has no \<open>processedUrl\<close>, and the calls are
  the enhancement and then the analysis, both on the original bytes, followed by the
  hand-over to the store if it is connected.
\<close>

theorem enhancement_failure_degrades:
  assumes img: "startsWith (file_type f) ''image/''"
    and rd: "reader_result f = Some url"
    and nores: "enhancement_no_result ev (base64_of url) (file_type f)"
  shows "(\<exists>r. processMedicalImage ev (base64_of url) (file_type f) = Inr r \<and> \<not> truthy r)
    \<and> (\<exists>nf. built (handleFileUpload ev st (f # fs)) = Some nf
          \<and> processedUrl nf = None
          \<and> calls (handleFileUpload ev st (f # fs)) =
              [ProcessMedicalImage (base64_of url) (file_type f),
               AnalyzeMedicalDocument (base64_of url) (file_type f)] @ persist_calls st nf)"
proof -
  obtain r where r: "processMedicalImage ev (base64_of url) (file_type f) = Inr r" "\<not> truthy r"
    using processMedicalImage_no_result [OF nores] by blast
  have e: "enhance_step ev (st\<lparr>isUploading := True, processingStatus := ''Uploading...''\<rparr>) f (base64_of url)
      = Inr (None, base64_of url,
             st\<lparr>isUploading := True, processingStatus := ''Uploading...''\<rparr>
               \<lparr>processingStatus := ''Removing noise & cropping...''\<rparr>,
             [ProcessMedicalImage (base64_of url) (file_type f)])"
    using r by (simp add: enhance_step_image [OF img r(1)])
  from run_without_enhancement [OF rd e, of fs] r show ?thesis
    by (auto simp: newFile_def)
qed

theorem enhancement_failure_degrades_witness:
  "startsWith (file_type png_file) ''image/''
   \<and> reader_result png_file = Some ''data:image/png;base64,QUJD''
   \<and> enhancement_no_result env_calls_throw (Some ''QUJD'') ''image/png''
   \<and> processMedicalImage env_calls_throw (Some ''QUJD'') ''image/png'' = Inr None
   \<and> map_option processedUrl (built (handleFileUpload env_calls_throw sample_state [png_file])) = Some None
   \<and> calls (handleFileUpload env_calls_throw sample_state [png_file]) =
       [ProcessMedicalImage (Some ''QUJD'') ''image/png'', AnalyzeMedicalDocument (Some ''QUJD'') ''image/png'']"
proof -
  have img: "startsWith (file_type png_file) ''image/''"
    by (simp add: png_file_def startsWith_def)
  have rd: "reader_result png_file = Some ''data:image/png;base64,QUJD''"
    by (simp add: png_file_def)
  have ft: "file_type png_file = ''image/png''"
    by (simp add: png_file_def)
  have nr: "enhancement_no_result env_calls_throw (base64_of ''data:image/png;base64,QUJD'') (file_type png_file)"
    by (rule env_calls_throw_no_result)
  have pm: "processMedicalImage env_calls_throw (Some ''QUJD'') ''image/png'' = Inr None"
    by (simp add: processMedicalImage_def getGenAIClient_def processMedicalImage_try_def
        env_calls_throw_def env_of_def call_throws_def truthy_def)
  from enhancement_failure_degrades [OF img rd nr, of sample_state "[]"] img rd ft pm
    sample_state_local env_calls_throw_no_result [of "Some ''QUJD''" "''image/png''"]
  show ?thesis by auto
qed

text \<open>
  C7. For a file whose mime type does not start with \<^verbatim>\<open>image/\<close>, such as a PDF, the
  orchestrator never calls the enhancement stage; once the bytes are read, the analysis is
  the one stage call and runs on the original bytes, and the record built has no
  \<open>processedUrl\<close>.
\<close>

theorem non_image_skips_enhancement:
  assumes other: "\<not> startsWith (file_type f) ''image/''"
  shows "filter is_enhance_call (calls (handleFileUpload ev st (f # fs))) = []
    \<and> (\<forall>url. reader_result f = Some url \<longrightarrow>
          (\<exists>nf. built (handleFileUpload ev st (f # fs)) = Some nf
             \<and> processedUrl nf = None
             \<and> calls (handleFileUpload ev st (f # fs)) =
                 [AnalyzeMedicalDocument (base64_of url) (file_type f)] @ persist_calls st nf))"
proof -
  have shape: "\<exists>nf. built (handleFileUpload ev st (f # fs)) = Some nf
       \<and> processedUrl nf = None
       \<and> calls (handleFileUpload ev st (f # fs)) =
           [AnalyzeMedicalDocument (base64_of url) (file_type f)] @ persist_calls st nf"
    if rd: "reader_result f = Some url" for url
  proof -
    have e: "enhance_step ev (st\<lparr>isUploading := True, processingStatus := ''Uploading...''\<rparr>) f (base64_of url)
        = Inr (None, base64_of url, st\<lparr>isUploading := True, processingStatus := ''Uploading...''\<rparr>, [])"
      by (simp add: enhance_step_other [OF other])
    from run_without_enhancement [OF rd e, of fs] show ?thesis
      by (auto simp: newFile_def)
  qed
  have "filter is_enhance_call (calls (handleFileUpload ev st (f # fs))) = []"
  proof (cases "reader_result f")
    case None
    then show ?thesis by (simp add: upload_read_failure)
  next
    case (Some url)
    from shape [OF Some] show ?thesis
      by (auto simp: persist_calls_def)
  qed
  with shape show ?thesis by blast
qed

theorem non_image_skips_enhancement_witness:
  "\<not> startsWith (file_type pdf_file) ''image/''
   \<and> reader_result pdf_file = Some ''data:application/pdf;base64,QUJD''
   \<and> filter is_enhance_call (calls (handleFileUpload env_calls_throw sample_state [pdf_file])) = []
   \<and> map_option processedUrl (built (handleFileUpload env_calls_throw sample_state [pdf_file])) = Some None
   \<and> calls (handleFileUpload env_calls_throw sample_state [pdf_file]) =
       [AnalyzeMedicalDocument (Some ''QUJD'') ''application/pdf'']"
proof -
  have other: "\<not> startsWith (file_type pdf_file) ''image/''"
    by (simp add: pdf_file_def startsWith_def)
  have rd: "reader_result pdf_file = Some ''data:application/pdf;base64,QUJD''"
    by (simp add: pdf_file_def)
  have ft: "file_type pdf_file = ''application/pdf''"
    by (simp add: pdf_file_def)
  from non_image_skips_enhancement [OF other, of env_calls_throw sample_state "[]"] other rd ft
    sample_state_local
  show ?thesis by auto
qed

section \<open>The store\<close>

text \<open>The check the code makes: an original above the threshold clears both images.\<close>

lemma strip_large_preview:
  "previewUrl file' = Some u \<Longrightarrow> 800000 < length u \<Longrightarrow>
   previewUrl (strip_large file') = Some [] \<and> processedUrl (strip_large file') = Some []"
  by (simp add: strip_large_def)

text \<open>
  C9, at a record whose enhanced image alone is above the threshold. Only the length of
  \<open>previewUrl\<close> is tested, so the copy handed to the store is the record unchanged, with its
  800022 characters of \<open>processedUrl\<close>, and not an empty string in their place.
\<close>

theorem large_processed_image_persisted:
  "previewUrl large_processed_file = Some ''data:image/jpeg;base64,QUJD''
   \<and> map_option length (processedUrl large_processed_file) = Some 800022
   \<and> addPatientReport env_store DEMO_USER_ID large_processed_file = Inr (Some large_processed_file)
   \<and> processedUrl large_processed_file \<noteq> Some []"
  by (simp add: large_processed_file_def addPatientReport_def env_store_def env_of_def
      store_accepts_def strip_large_def)

section \<open>The annotation renderer\<close>

lemma heat_element_key:
  "box_2d x = Some b \<Longrightarrow> \<exists>ov. heat_element (i, x) = Some ov \<and> heat_key ov = i"
  by (simp add: heat_element_def)

lemma box_element_key:
  "box_2d x = Some b \<Longrightarrow> \<exists>ov. box_element hov (i, x) = Some ov \<and> box_key ov = i"
  by (simp add: box_element_def)

lemma heat_keys:
  "\<forall>x \<in> set xs. box_2d x \<noteq> None \<Longrightarrow>
   map heat_key (List.map_filter heat_element (List.enumerate n xs)) = [n..<n + length xs]"
proof (induction xs arbitrary: n)
  case Nil
  then show ?case by (simp add: List.map_filter_simps)
next
  case (Cons x xs)
  then obtain b where "box_2d x = Some b" by auto
  then obtain ov where "heat_element (n, x) = Some ov" "heat_key ov = n"
    using heat_element_key by blast
  then have "map heat_key (List.map_filter heat_element (List.enumerate n (x # xs))) =
      n # map heat_key (List.map_filter heat_element (List.enumerate (Suc n) xs))"
    by (simp add: List.map_filter_simps)
  also have "\<dots> = n # [Suc n..<Suc n + length xs]"
    using Cons by simp
  also have "\<dots> = [n..<n + length (x # xs)]"
    by (simp del: upt_Suc add: upt_rec [of n])
  finally show ?case .
qed

lemma box_keys:
  "\<forall>x \<in> set xs. box_2d x \<noteq> None \<Longrightarrow>
   map box_key (List.map_filter (box_element hov) (List.enumerate n xs)) = [n..<n + length xs]"
proof (induction xs arbitrary: n)
  case Nil
  then show ?case by (simp add: List.map_filter_simps)
next
  case (Cons x xs)
  then obtain b where "box_2d x = Some b" by auto
  then obtain ov where "box_element hov (n, x) = Some ov" "box_key ov = n"
    using box_element_key by blast
  then have "map box_key (List.map_filter (box_element hov) (List.enumerate n (x # xs))) =
      n # map box_key (List.map_filter (box_element hov) (List.enumerate (Suc n) xs))"
    by (simp add: List.map_filter_simps)
  also have "\<dots> = n # [Suc n..<Suc n + length xs]"
    using Cons by simp
  also have "\<dots> = [n..<n + length (x # xs)]"
    by (simp del: upt_Suc add: upt_rec [of n])
  finally show ?case .
qed

lemma visualFindings_boxed: "\<forall>x \<in> set (visualFindings fs). box_2d x \<noteq> None"
  by (simp add: visualFindings_def)

lemma length_visualFindings: "length (visualFindings fs) = boxed_count fs"
  by (simp add: visualFindings_def boxed_count_def split: option.splits)

text \<open>
  C8. In every view mode, each layer the mode shows holds one overlay for every finding
  that has a box, numbered from 0 in report order, and a layer the mode hides holds none:
  the findings drawn are as many as the findings with a box. The findings without a box
  are drawn in no mode; the textual list still has a card for every finding of the report.
\<close>

theorem spatial_overlays_count:
  "map heat_key (heatmap_layer (ImageAnnotator fs viewMode hov)) =
     (if viewMode = ModeBox then [] else [0..<boxed_count fs])
   \<and> map box_key (box_layer (ImageAnnotator fs viewMode hov)) =
     (if viewMode = ModeHeatmap then [] else [0..<boxed_count fs])
   \<and> length (findingCards result) = length (findings result)"
  using heat_keys [OF visualFindings_boxed, where n = 0 and fs1 = fs]
    box_keys [OF visualFindings_boxed, where n = 0 and fs1 = fs and hov = hov]
  by (cases viewMode) (simp_all add: ImageAnnotator_def Let_def length_visualFindings findingCards_def)

theorem spatial_overlays_count_witness:
  "boxed_count (Some [boxed_finding, text_finding]) = 1
   \<and> map heat_key (heatmap_layer (ImageAnnotator (Some [boxed_finding, text_finding]) ModeCombined None)) = [0]
   \<and> map box_key (box_layer (ImageAnnotator (Some [boxed_finding, text_finding]) ModeCombined None)) = [0]
   \<and> map box_key (box_layer (ImageAnnotator (Some [boxed_finding, text_finding]) ModeHeatmap None)) = []
   \<and> map heat_key (heatmap_layer (ImageAnnotator (Some [boxed_finding, text_finding]) ModeBox None)) = []
   \<and> length (findingCards \<lparr>findings = [boxed_finding, text_finding], summary = ''s'', disclaimer = ''d''\<rparr>) = 2"
proof -
  have n: "boxed_count (Some [boxed_finding, text_finding]) = 1"
    by (simp add: boxed_count_def boxed_finding_def text_finding_def)
  from spatial_overlays_count [of "Some [boxed_finding, text_finding]" ModeCombined None
         "\<lparr>findings = [boxed_finding, text_finding], summary = ''s'', disclaimer = ''d''\<rparr>"]
       spatial_overlays_count [of "Some [boxed_finding, text_finding]" ModeHeatmap None]
       spatial_overlays_count [of "Some [boxed_finding, text_finding]" ModeBox None] n
  show ?thesis by simp
qed

section \<open>Binary64 arithmetic\<close>

lemma floor_rat_numeral: "\<lfloor>numeral a / numeral b :: rat\<rfloor> = numeral a div numeral b"
  by (metis floor_divide_of_int_eq of_int_numeral)

lemma ceiling_rat_numeral: "\<lceil>numeral a / numeral b :: rat\<rceil> = - (- numeral a div numeral b)"
  using ceiling_divide_eq_div [of "numeral a" "numeral b"] by simp

text \<open>
  Rounding a positive rational, step by step: its exponent, the significand the quotient
  rounds to, and the value that significand denotes.
\<close>

lemma round64_pos:
  assumes "0 < q" and "floor_log2 q = e0" and "e = max e0 (- 1022)"
    and "round_half_even (q / pow2 (e - 52)) = m"
    and "of_int m * pow2 (e - 52) = r" and "r < pow2 1024"
  shows "round64 q = Finite r"
  using assms by (auto simp: round64_def Let_def)

text \<open>
  The rounding is to a nearest value: the integer chosen is within one half of the
  quotient, the exponent brackets the number, and so a positive number moves by at most
  half a unit in the last place, which in the normal range is a relative error of at most
  \<open>2^-53\<close>.
\<close>

lemma round_half_even_nearest: "\<bar>of_int (round_half_even x) - x\<bar> \<le> 1 / 2"
proof -
  have "of_int \<lfloor>x\<rfloor> \<le> x" "x < of_int \<lfloor>x\<rfloor> + 1"
    by linarith+
  then show ?thesis
    by (auto simp: round_half_even_def Let_def abs_le_iff)
qed

lemma pow2_pos: "0 < pow2 e"
  by (simp add: pow2_def)

lemma pow2_powi: "pow2 e = 2 powi e"
  by (simp add: pow2_def power_int_def power_one_over field_simps)

lemma pow2_add: "pow2 (a + b) = pow2 a * pow2 b"
  by (simp add: pow2_powi power_int_add)

lemma pow2_mono: "a \<le> b \<Longrightarrow> pow2 a \<le> pow2 b"
  by (simp add: pow2_powi power_int_increasing)

lemma floor_log2_bounds:
  assumes "0 < a"
  shows "pow2 (floor_log2 a) \<le> a \<and> a < pow2 (floor_log2 a + 1)"
proof (cases "1 \<le> a")
  case True
  define n where "n = \<lfloor>a\<rfloor>"
  have n1: "1 \<le> n" using True by (simp add: n_def le_floor_iff)
  then have n0: "0 < n" by simp
  from bitlen_bounds [OF n0] have b: "2 ^ nat (bitlen n - 1) \<le> n" "n < 2 ^ nat (bitlen n)"
    by auto
  have bl: "1 \<le> bitlen n"
    using n0 by (simp add: bitlen_alt_def)
  have fl: "floor_log2 a = bitlen n - 1"
    using True by (simp add: floor_log2_def n_def)
  have lo: "pow2 (bitlen n - 1) \<le> a"
  proof -
    have "pow2 (bitlen n - 1) = of_int (2 ^ nat (bitlen n - 1))"
      using bl by (simp add: pow2_def)
    also have "\<dots> \<le> of_int n" using b(1) by (simp only: of_int_le_iff)
    also have "\<dots> \<le> a" by (simp add: n_def)
    finally show ?thesis .
  qed
  have hi: "a < pow2 (bitlen n - 1 + 1)"
  proof -
    have le: "n + 1 \<le> 2 ^ nat (bitlen n)" using b(2) by simp
    have "a < of_int (n + 1)" using floor_correct [of a] by (simp add: n_def)
    also have "\<dots> \<le> of_int (2 ^ nat (bitlen n))"
      using le by (simp only: of_int_le_iff)
    also have "\<dots> = pow2 (bitlen n - 1 + 1)"
      using bl by (simp add: pow2_def)
    finally show ?thesis .
  qed
  from lo hi fl show ?thesis by simp
next
  case False
  define c where "c = \<lceil>1 / a\<rceil>"
  have inv: "1 < 1 / a" using False assms by simp
  then have c2: "2 \<le> c" by (simp add: c_def le_ceiling_iff)
  then have n0: "0 < c - 1" by simp
  from bitlen_bounds [OF n0] have b: "2 ^ nat (bitlen (c - 1) - 1) \<le> c - 1" "c - 1 < 2 ^ nat (bitlen (c - 1))"
    by auto
  have bl: "1 \<le> bitlen (c - 1)"
    using n0 by (simp add: bitlen_alt_def)
  have fl: "floor_log2 a = - bitlen (c - 1)"
    using False by (simp add: floor_log2_def c_def)
  have lo: "pow2 (- bitlen (c - 1)) \<le> a"
  proof -
    have le: "c \<le> 2 ^ nat (bitlen (c - 1))" using b(2) by simp
    have "1 / a \<le> of_int c" by (simp add: c_def)
    also have "\<dots> \<le> of_int (2 ^ nat (bitlen (c - 1)))"
      using le by (simp only: of_int_le_iff)
    finally have "1 / a \<le> 2 ^ nat (bitlen (c - 1))" by simp
    then have "1 / 2 ^ nat (bitlen (c - 1)) \<le> a"
      using assms by (simp add: field_simps)
    then show ?thesis using bl by (simp add: pow2_def)
  qed
  have hi: "a < pow2 (- bitlen (c - 1) + 1)"
  proof -
    have "of_int (2 ^ nat (bitlen (c - 1) - 1)) \<le> (of_int (c - 1) :: rat)"
      using b(1) by (simp only: of_int_le_iff)
    also have "\<dots> < 1 / a" using ceiling_correct [of "1 / a"] by (simp add: c_def)
    finally have "2 ^ nat (bitlen (c - 1) - 1) < 1 / a" by simp
    then have "a < 1 / 2 ^ nat (bitlen (c - 1) - 1)"
      using assms by (simp add: field_simps)
    moreover have "pow2 (- bitlen (c - 1) + 1) = 1 / 2 ^ nat (bitlen (c - 1) - 1)"
      using bl by (auto simp: pow2_def)
    ultimately show ?thesis by simp
  qed
  from lo hi fl show ?thesis by simp
qed


lemma round64_half_ulp:
  assumes "0 < q" and "round64 q = Finite r"
  shows "\<bar>r - q\<bar> \<le> pow2 (max (floor_log2 q) (- 1022) - 52) / 2"
proof -
  define u where "u = pow2 (max (floor_log2 q) (- 1022) - 52)"
  define m where "m = round_half_even (q / u)"
  have u0: "0 < u" by (simp add: u_def pow2_pos)
  from assms have r: "r = of_int m * u"
    by (auto simp: round64_def Let_def u_def m_def split: if_splits)
  have "\<bar>of_int m - q / u\<bar> \<le> 1 / 2"
    unfolding m_def by (rule round_half_even_nearest)
  then have "\<bar>of_int m - q / u\<bar> * u \<le> 1 / 2 * u"
    using u0 by (simp only: mult_le_cancel_right) simp
  moreover have "\<bar>of_int m - q / u\<bar> * u = \<bar>of_int m * u - q\<bar>"
  proof -
    have "\<bar>of_int m - q / u\<bar> * u = \<bar>(of_int m - q / u) * u\<bar>"
      using u0 by (simp add: abs_mult)
    also have "(of_int m - q / u) * u = of_int m * u - q"
      using u0 by (simp add: left_diff_distrib)
    finally show ?thesis .
  qed
  ultimately show ?thesis
    by (simp add: r u_def)
qed

lemma round64_relative_error:
  assumes "pow2 (- 1022) \<le> q" and "round64 q = Finite r"
  shows "\<bar>r - q\<bar> \<le> q / 2 ^ 53"
proof -
  have q0: "0 < q" using assms(1) pow2_pos [of "- 1022"] by linarith
  from floor_log2_bounds [OF q0] have b: "pow2 (floor_log2 q) \<le> q" "q < pow2 (floor_log2 q + 1)"
    by auto
  have "- 1022 \<le> floor_log2 q"
  proof (rule ccontr)
    assume "\<not> - 1022 \<le> floor_log2 q"
    then have "floor_log2 q + 1 \<le> - 1022" by simp
    then have "pow2 (floor_log2 q + 1) \<le> pow2 (- 1022)" by (rule pow2_mono)
    with b(2) assms(1) show False by linarith
  qed
  then have e: "max (floor_log2 q) (- 1022) = floor_log2 q" by simp
  have "pow2 (floor_log2 q - 52) = pow2 (floor_log2 q) * pow2 (- 52)"
    using pow2_add [of "floor_log2 q" "- 52"] by simp
  also have "\<dots> = pow2 (floor_log2 q) / 2 ^ 52" by (simp add: pow2_def)
  also have "\<dots> \<le> q / 2 ^ 52" using b(1) by (simp add: divide_right_mono)
  finally have "pow2 (floor_log2 q - 52) / 2 \<le> q / 2 ^ 52 / 2" by simp
  with round64_half_ulp [OF q0 assms(2)] e show ?thesis by simp
qed

text \<open>The arithmetic of the example, evaluated on numerals.\<close>

lemmas log2_eval = floor_log2_def compute_bitlen floor_rat_numeral ceiling_rat_numeral
lemmas half_even_eval = round_half_even_def Let_def pow2_def floor_rat_numeral

text \<open>The binary64 values that the literals 0.1, 0.3 and 0.4 denote.\<close>

lemma lit_01: "round64 (1 / 10) = Finite (3602879701896397 / 36028797018963968)"
proof (rule round64_pos [where ?e0.0 = "- 4" and e = "- 4" and m = 7205759403792794])
  show "floor_log2 (1 / 10) = - 4" by (simp add: log2_eval)
  show "round_half_even (1 / 10 / pow2 (- 4 - 52)) = 7205759403792794" by (simp add: half_even_eval)
  show "of_int 7205759403792794 * pow2 (- 4 - 52) = 3602879701896397 / 36028797018963968"
    by (simp add: pow2_def)
  show "(3602879701896397 / 36028797018963968 :: rat) < pow2 1024" by (simp add: pow2_def)
qed simp_all

lemma lit_03: "round64 (3 / 10) = Finite (5404319552844595 / 18014398509481984)"
proof (rule round64_pos [where ?e0.0 = "- 2" and e = "- 2" and m = 5404319552844595])
  show "floor_log2 (3 / 10) = - 2" by (simp add: log2_eval)
  show "round_half_even (3 / 10 / pow2 (- 2 - 52)) = 5404319552844595" by (simp add: half_even_eval)
  show "of_int 5404319552844595 * pow2 (- 2 - 52) = 5404319552844595 / 18014398509481984"
    by (simp add: pow2_def)
  show "(5404319552844595 / 18014398509481984 :: rat) < pow2 1024" by (simp add: pow2_def)
qed simp_all

lemma lit_04: "round64 (4 / 10) = Finite (3602879701896397 / 9007199254740992)"
proof (rule round64_pos [where ?e0.0 = "- 2" and e = "- 2" and m = 7205759403792794])
  show "floor_log2 (4 / 10) = - 2" by (simp add: log2_eval)
  show "round_half_even (4 / 10 / pow2 (- 2 - 52)) = 7205759403792794" by (simp add: half_even_eval)
  show "of_int 7205759403792794 * pow2 (- 2 - 52) = 3602879701896397 / 9007199254740992"
    by (simp add: pow2_def)
  show "(3602879701896397 / 9007199254740992 :: rat) < pow2 1024" by (simp add: pow2_def)
qed simp_all

lemma nat_1000: "num_of_nat 1000 = Finite 1000"
  unfolding num_of_nat_def
proof (rule round64_pos [where ?e0.0 = 9 and e = 9 and m = 8796093022208000])
  show "floor_log2 (of_nat 1000) = 9" by (simp add: log2_eval)
  show "round_half_even (of_nat 1000 / pow2 (9 - 52)) = 8796093022208000" by (simp add: half_even_eval)
  show "of_int 8796093022208000 * pow2 (9 - 52) = 1000" by (simp add: pow2_def)
  show "(1000 :: rat) < pow2 1024" by (simp add: pow2_def)
qed simp_all

lemma nat_800: "num_of_nat 800 = Finite 800"
  unfolding num_of_nat_def
proof (rule round64_pos [where ?e0.0 = 9 and e = 9 and m = 7036874417766400])
  show "floor_log2 (of_nat 800) = 9" by (simp add: log2_eval)
  show "round_half_even (of_nat 800 / pow2 (9 - 52)) = 7036874417766400" by (simp add: half_even_eval)
  show "of_int 7036874417766400 * pow2 (9 - 52) = 800" by (simp add: pow2_def)
  show "(800 :: rat) < pow2 1024" by (simp add: pow2_def)
qed simp_all

text \<open>The difference 0.4 - 0.1 lies halfway between two values and goes to the even one, above 0.3.\<close>

lemma sub_04_01:
  "round64 (3602879701896397 / 9007199254740992 + - (3602879701896397 / 36028797018963968))
     = Finite (1351079888211149 / 4503599627370496)"
proof (rule round64_pos [where ?e0.0 = "- 2" and e = "- 2" and m = 5404319552844596])
  show "floor_log2 (3602879701896397 / 9007199254740992 + - (3602879701896397 / 36028797018963968)) = - 2"
    by (simp add: log2_eval)
  show "round_half_even ((3602879701896397 / 9007199254740992 + - (3602879701896397 / 36028797018963968))
      / pow2 (- 2 - 52)) = 5404319552844596"
    by (simp add: half_even_eval)
  show "of_int 5404319552844596 * pow2 (- 2 - 52) = 1351079888211149 / 4503599627370496"
    by (simp add: pow2_def)
  show "(1351079888211149 / 4503599627370496 :: rat) < pow2 1024" by (simp add: pow2_def)
qed simp_all

lemma sub_03_01:
  "round64 (5404319552844595 / 18014398509481984 + - (3602879701896397 / 36028797018963968))
     = Finite (7205759403792793 / 36028797018963968)"
proof (rule round64_pos [where ?e0.0 = "- 3" and e = "- 3" and m = 7205759403792793])
  show "floor_log2 (5404319552844595 / 18014398509481984 + - (3602879701896397 / 36028797018963968)) = - 3"
    by (simp add: log2_eval)
  show "round_half_even ((5404319552844595 / 18014398509481984 + - (3602879701896397 / 36028797018963968))
      / pow2 (- 3 - 52)) = 7205759403792793"
    by (simp add: half_even_eval)
  show "of_int 7205759403792793 * pow2 (- 3 - 52) = 7205759403792793 / 36028797018963968"
    by (simp add: pow2_def)
  show "(7205759403792793 / 36028797018963968 :: rat) < pow2 1024" by (simp add: pow2_def)
qed simp_all

lemma mul_x: "round64 (3602879701896397 / 36028797018963968 * 1000) = Finite 100"
proof (rule round64_pos [where ?e0.0 = 6 and e = 6 and m = 7036874417766400])
  show "floor_log2 (3602879701896397 / 36028797018963968 * 1000) = 6" by (simp add: log2_eval)
  show "round_half_even (3602879701896397 / 36028797018963968 * 1000 / pow2 (6 - 52)) = 7036874417766400"
    by (simp add: half_even_eval)
  show "of_int 7036874417766400 * pow2 (6 - 52) = 100" by (simp add: pow2_def)
  show "(100 :: rat) < pow2 1024" by (simp add: pow2_def)
qed simp_all

lemma mul_y: "round64 (3602879701896397 / 36028797018963968 * 800) = Finite 80"
proof (rule round64_pos [where ?e0.0 = 6 and e = 6 and m = 5629499534213120])
  show "floor_log2 (3602879701896397 / 36028797018963968 * 800) = 6" by (simp add: log2_eval)
  show "round_half_even (3602879701896397 / 36028797018963968 * 800 / pow2 (6 - 52)) = 5629499534213120"
    by (simp add: half_even_eval)
  show "of_int 5629499534213120 * pow2 (6 - 52) = 80" by (simp add: pow2_def)
  show "(80 :: rat) < pow2 1024" by (simp add: pow2_def)
qed simp_all

lemma mul_w: "round64 (1351079888211149 / 4503599627370496 * 1000) = Finite (300 + 1 / 2 ^ 44)"
proof (rule round64_pos [where ?e0.0 = 8 and e = 8 and m = 5277655813324801])
  show "floor_log2 (1351079888211149 / 4503599627370496 * 1000) = 8" by (simp add: log2_eval)
  show "round_half_even (1351079888211149 / 4503599627370496 * 1000 / pow2 (8 - 52)) = 5277655813324801"
    by (simp add: half_even_eval)
  show "of_int 5277655813324801 * pow2 (8 - 52) = 300 + 1 / 2 ^ 44" by (simp add: pow2_def)
  show "(300 + 1 / 2 ^ 44 :: rat) < pow2 1024" by (simp add: pow2_def)
qed simp_all

lemma mul_h: "round64 (7205759403792793 / 36028797018963968 * 800) = Finite 160"
proof (rule round64_pos [where ?e0.0 = 7 and e = 7 and m = 5629499534213120])
  show "floor_log2 (7205759403792793 / 36028797018963968 * 800) = 7" by (simp add: log2_eval)
  show "round_half_even (7205759403792793 / 36028797018963968 * 800 / pow2 (7 - 52)) = 5629499534213120"
    by (simp add: half_even_eval)
  show "of_int 5629499534213120 * pow2 (7 - 52) = 160" by (simp add: pow2_def)
  show "(160 :: rat) < pow2 1024" by (simp add: pow2_def)
qed simp_all

lemma step_x: "js_mul (round64 (1 / 10)) (num_of_nat 1000) = Finite 100"
  by (simp only: lit_01 nat_1000 js_mul.simps mul_x)

lemma step_y: "js_mul (round64 (1 / 10)) (num_of_nat 800) = Finite 80"
  by (simp only: lit_01 nat_800 js_mul.simps mul_y)

lemma step_w: "js_mul (js_sub (round64 (4 / 10)) (round64 (1 / 10))) (num_of_nat 1000) = Finite (300 + 1 / 2 ^ 44)"
  by (simp only: lit_01 lit_04 nat_1000 js_sub_def js_neg.simps js_add.simps sub_04_01 js_mul.simps mul_w)

lemma step_h: "js_mul (js_sub (round64 (3 / 10)) (round64 (1 / 10))) (num_of_nat 800) = Finite 160"
  by (simp only: lit_01 lit_03 nat_800 js_sub_def js_neg.simps js_add.simps sub_03_01 js_mul.simps mul_h)

lemma example_rect:
  "export_rect 1000 800 example_box = (Finite 100, Finite 80, Finite (300 + 1 / 2 ^ 44), Finite 160)"
proof -
  have sel: "xmin example_box = round64 (1 / 10)" "ymin example_box = round64 (1 / 10)"
    "xmax example_box = round64 (4 / 10)" "ymax example_box = round64 (3 / 10)"
    by (simp_all add: example_box_def js_literal_def)
  show ?thesis
    unfolding export_rect_def sel step_x step_y step_w step_h ..
qed

section \<open>The export renderer\<close>

lemma stroke_rects_append: "stroke_rects (xs @ ys) = stroke_rects xs @ stroke_rects ys"
  by (induction xs rule: stroke_rects.induct) simp_all

lemma stroke_rects_annotate:
  "stroke_rects (annotate mt w h (i, f)) = (case box_2d f of None \<Rightarrow> [] | Some b \<Rightarrow> [export_rect w h b])"
  by (simp add: annotate_def export_rect_def Let_def split: option.splits)

lemma stroke_rects_concat:
  "stroke_rects (concat (map (annotate mt w h) (List.enumerate n fs))) =
     map (export_rect w h) (List.map_filter box_2d fs)"
proof (induction fs arbitrary: n)
  case Nil
  then show ?case by (simp add: List.map_filter_simps)
next
  case (Cons f fs)
  then show ?case
    by (simp add: stroke_rects_append stroke_rects_annotate List.map_filter_simps split: option.splits)
qed

text \<open>The export strokes one rectangle for every finding with a box, in report order.\<close>

lemma export_strokes:
  assumes "truthy (if truthy (processedUrl file') then processedUrl file' else previewUrl file')"
    and "analysisResult file' = Some result"
  shows "map_option stroke_rects (downloadAnnotatedImage mt True w h file') =
     Some (map (export_rect w h) (List.map_filter box_2d (findings result)))"
  using assms
  by (simp add: downloadAnnotatedImage_def Let_def stroke_rects_append stroke_rects_concat)

lemma example_export_facts:
  "truthy (if truthy (processedUrl example_export_file) then processedUrl example_export_file
           else previewUrl example_export_file)"
  "analysisResult example_export_file =
      Some \<lparr>findings = [boxed_finding], summary = ''One region.'', disclaimer = ''Not a diagnosis.''\<rparr>"
  "findings \<lparr>findings = [boxed_finding], summary = ''One region.'', disclaimer = ''Not a diagnosis.''\<rparr>
      = [boxed_finding]"
  "List.map_filter box_2d [boxed_finding] = [example_box]"
  by (simp_all add: example_export_file_def truthy_def boxed_finding_def)

lemma example_export_strokes:
  "map_option stroke_rects (downloadAnnotatedImage no_text_width True 1000 800 example_export_file)
     = Some [(Finite 100, Finite 80, Finite (300 + 1 / 2 ^ 44), Finite 160)]"
  by (simp only: export_strokes [OF example_export_facts(1,2)] example_export_facts(3,4)
      list.map example_rect)

text \<open>
  C3, as the code has it. On the 1000 by 800 image the box of the example is stroked with
  the top-left corner (100, 80) and the height 160, but the width is the binary64 product
  of 0.30000000000000004 and 1000, which is \<open>300 + 2^-44\<close> and not 300.
\<close>

theorem export_example_counterexample:
  "map_option stroke_rects (downloadAnnotatedImage no_text_width True 1000 800 example_export_file)
     \<noteq> Some [(Finite 100, Finite 80, Finite 300, Finite 160)]"
  unfolding example_export_strokes by simp

text \<open>
  C3, amended. For every finding with a box, in report order, the export strokes the
  rectangle with \<open>x = xmin * width\<close>, \<open>y = ymin * height\<close>, \<open>w = (xmax - xmin) * width\<close> and
  \<open>h = (ymax - ymin) * height\<close> for the image's native width and height, each product and
  difference being the binary64 operation; findings without a box are skipped. For the box
  \<^verbatim>\<open>{ymin: 0.1, xmin: 0.1, ymax: 0.3, xmax: 0.4}\<close> on a 1000 by 800 image the top-left corner
  is (100, 80) and the height is 160 exactly, and the width is \<open>300 + 2^-44\<close>, which
  JavaScript prints as 300.00000000000006.
\<close>

theorem export_rectangles:
  "(truthy (if truthy (processedUrl file') then processedUrl file' else previewUrl file')
      \<and> analysisResult file' = Some result \<longrightarrow>
    map_option stroke_rects (downloadAnnotatedImage mt True w h file') =
      Some (map (export_rect w h) (List.map_filter box_2d (findings result))))
   \<and> export_rect 1000 800 example_box = (Finite 100, Finite 80, Finite (300 + 1 / 2 ^ 44), Finite 160)"
  using export_strokes [of file' result mt w h] example_rect by blast

theorem export_rectangles_witness:
  "truthy (if truthy (processedUrl example_export_file) then processedUrl example_export_file
           else previewUrl example_export_file)
   \<and> map_option findings (analysisResult example_export_file) = Some [boxed_finding]
   \<and> List.map_filter box_2d [boxed_finding] = [example_box]
   \<and> map_option stroke_rects (downloadAnnotatedImage no_text_width True 1000 800 example_export_file)
       = Some [(Finite 100, Finite 80, Finite (300 + 1 / 2 ^ 44), Finite 160)]"
proof -
  note f = example_export_facts
  note t = export_rectangles [of example_export_file
      "\<lparr>findings = [boxed_finding], summary = ''One region.'', disclaimer = ''Not a diagnosis.''\<rparr>"
      no_text_width 1000 800]
  from t f(1,2) have s:
    "map_option stroke_rects (downloadAnnotatedImage no_text_width True 1000 800 example_export_file)
      = Some (map (export_rect 1000 800) (List.map_filter box_2d
          (findings \<lparr>findings = [boxed_finding], summary = ''One region.'',
             disclaimer = ''Not a diagnosis.''\<rparr>)))"
    by blast
  from t have e: "export_rect 1000 800 example_box
      = (Finite 100, Finite 80, Finite (300 + 1 / 2 ^ 44), Finite 160)"
    by blast
  have strokes:
    "map_option stroke_rects (downloadAnnotatedImage no_text_width True 1000 800 example_export_file)
      = Some [(Finite 100, Finite 80, Finite (300 + 1 / 2 ^ 44), Finite 160)]"
    by (simp only: s f(3,4) list.map e)
  have fs: "map_option findings (analysisResult example_export_file) = Some [boxed_finding]"
    by (simp add: f(2))
  from f(1) fs f(4) strokes show ?thesis by blast
qed

section \<open>Further properties of the pipeline\<close>

text \<open>When the connected store rejects the write, the local list stays as it was.\<close>

lemma store_rejection_run:
  assumes rd: "reader_result f = Some url"
    and cn: "isFirebaseConnected st"
    and rej: "\<And>nf. addPatientReport ev DEMO_USER_ID nf = Inl err"
  shows "files (final_state (handleFileUpload ev st (f # fs))) = files st"
proof -
  let ?st0 = "st\<lparr>isUploading := True, processingStatus := ''Uploading...''\<rparr>"
  obtain p fin st1 calls1 where e: "enhance_step ev ?st0 f (base64_of url) = Inr (p, fin, st1, calls1)"
    and c: "isFirebaseConnected st1 = isFirebaseConnected st" and fl: "files st1 = files st"
    using enhance_step_total [of ev ?st0 f "base64_of url"] by auto
  obtain result where a: "analyzeMedicalDocument ev fin (file_type f) = Inr result"
    using analyze_never_throws by blast
  show ?thesis
    using c cn fl
    by (simp add: handleFileUpload_read [OF rd] pipeline_try_eq [OF a e] rej Let_def)
qed

text \<open>
  Once the uploaded bytes are read, every run of the upload ends with \<open>isUploading\<close>
  false and the status cleared, and no error escapes the handler, whatever the model calls
  and the store do. With a connected store that rejects the write, the run ends in that
  state too, and the record, though built, is not put in the local list.
\<close>

theorem upload_ends_when_read:
  assumes "reader_result f = Some url"
  shows "isUploading (final_state (handleFileUpload ev st (f # fs))) = False
    \<and> processingStatus (final_state (handleFileUpload ev st (f # fs))) = []
    \<and> rejection (handleFileUpload ev st (f # fs)) = None"
  by (simp add: handleFileUpload_read [OF assms] split: prod.splits)

theorem upload_ends_when_read_witness:
  "reader_result png_file = Some ''data:image/png;base64,QUJD''
   \<and> addPatientReport env_store_rejects DEMO_USER_ID
        (newFile env_store_rejects png_file ''data:image/png;base64,QUJD'' None analysisCatchResult)
       = Inl (ApiError ''permission-denied'')
   \<and> isUploading (final_state (handleFileUpload env_store_rejects connected_state [png_file])) = False
   \<and> processingStatus (final_state (handleFileUpload env_store_rejects connected_state [png_file])) = []
   \<and> rejection (handleFileUpload env_store_rejects connected_state [png_file]) = None
   \<and> files (final_state (handleFileUpload env_store_rejects connected_state [png_file])) = []"
proof -
  have rd: "reader_result png_file = Some ''data:image/png;base64,QUJD''"
    by (simp add: png_file_def)
  have rej: "addPatientReport env_store_rejects DEMO_USER_ID nf = Inl (ApiError ''permission-denied'')" for nf
    by (simp add: addPatientReport_def env_store_rejects_def env_of_def store_rejects_def)
  have cn: "isFirebaseConnected connected_state" "files connected_state = []"
    by (simp_all add: connected_state_def)
  have fl: "files (final_state (handleFileUpload env_store_rejects connected_state [png_file])) = []"
    using store_rejection_run [OF rd cn(1) rej, of "[]"] cn(2) by simp
  from upload_ends_when_read [OF rd, of env_store_rejects connected_state "[]"] rd rej fl
  show ?thesis by simp
qed

text \<open>
  Whatever the model call and the parser do, \<open>analyzeMedicalDocument\<close> returns a report
  whose \<open>findings\<close> property is there and is an array.
\<close>

theorem analysis_findings_always_array:
  "\<exists>r xs. analyzeMedicalDocument ev b m = Inr r \<and> map_of r ''findings'' = Some (JArr xs)"
proof -
  have c: "\<exists>xs. (if Array_isArray f then the f else JArr []) = JArr xs" for f
    by (cases f rule: Array_isArray.cases) auto
  show ?thesis
    using c
    by (auto simp: analyzeMedicalDocument_def getGenAIClient_def analyzeMedicalDocument_try_def
        coerce_findings_cases analysisCatchResult_def defaultError_def
        split: sum.splits option.splits)
qed

text \<open>
  When the original image's data URL is longer than 800000 characters and the store
  accepts the write, the copy that is persisted has the empty string as \<open>previewUrl\<close> and as
  \<open>processedUrl\<close>, also when the record had no \<open>processedUrl\<close> before; its other fields are
  those of the record.
\<close>

theorem oversized_preview_stripped:
  assumes "db ev = Some updateDoc" and "previewUrl file' = Some u" and "800000 < length u"
    and "updateDoc userId (strip_large file') = Inr ()"
  shows "addPatientReport ev userId file' =
      Inr (Some (file'\<lparr>previewUrl := Some [], processedUrl := Some []\<rparr>))"
  using assms by (simp add: addPatientReport_def strip_large_def)

theorem oversized_preview_stripped_witness:
  "db env_store = Some store_accepts
   \<and> map_option length (previewUrl large_preview_file) = Some 800001
   \<and> processedUrl large_preview_file = None
   \<and> addPatientReport env_store DEMO_USER_ID large_preview_file =
       Inr (Some (large_preview_file\<lparr>previewUrl := Some [], processedUrl := Some []\<rparr>))"
proof -
  have d: "db env_store = Some store_accepts"
    by (simp add: env_store_def env_of_def)
  have p: "previewUrl large_preview_file = Some (replicate 800001 (CHR ''A''))"
    by (simp add: large_preview_file_def)
  have l: "800000 < length (replicate 800001 (CHR ''A''))"
    by simp
  have a: "store_accepts DEMO_USER_ID (strip_large large_preview_file) = Inr ()"
    by (simp add: store_accepts_def)
  have n: "processedUrl large_preview_file = None"
    by (simp add: large_preview_file_def)
  from oversized_preview_stripped [OF d p l a] d p n show ?thesis
    by simp
qed

end
